theory Spec2Isabelle
  imports Main "HOL-Library.Log_Nat" "HOL-Library.Product_Lexorder"
begin

section \<open>Python strings and character classes\<close>

text \<open>
  A Python \<open>str\<close> is modelled as a \<open>string\<close>; a \<open>char\<close> stands for the code
  point of the same number, so the lines covered are those whose code points are below 256.
  On that range the classes of \<open>re\<close> (for \<open>str\<close> patterns), of \<open>str.strip\<close> and of
  \<open>str.split\<close> are the ones below. Python's \<open>int\<close> is unbounded; CPython 3.11 and
  later (and the security releases of 3.7 to 3.10) refuse by default to convert a string
  of more than 4300 digits to an \<open>int\<close>, and raise \<open>ValueError\<close>.
\<close>

definition is_digit :: "char \<Rightarrow> bool" where
  \<comment> \<open>\<open>\d\<close>\<close>
  "is_digit c = (let n = (of_char c :: nat) in 48 \<le> n \<and> n \<le> 57)"

definition is_hex :: "char \<Rightarrow> bool" where
  \<comment> \<open>\<open>[0-9a-f]\<close>\<close>
  "is_hex c = (let n = (of_char c :: nat) in (48 \<le> n \<and> n \<le> 57) \<or> (97 \<le> n \<and> n \<le> 102))"

definition is_space :: "char \<Rightarrow> bool" where
  \<comment> \<open>\<open>\s\<close>, and the characters \<open>strip()\<close> and \<open>split()\<close> treat as whitespace\<close>
  "is_space c = (let n = (of_char c :: nat) in
     (9 \<le> n \<and> n \<le> 13) \<or> (28 \<le> n \<and> n \<le> 32) \<or> n = 133 \<or> n = 160)"

definition is_word :: "char \<Rightarrow> bool" where
  \<comment> \<open>\<open>\w\<close>: alphanumeric or underscore\<close>
  "is_word c = (let n = (of_char c :: nat) in
     (48 \<le> n \<and> n \<le> 57) \<or> (65 \<le> n \<and> n \<le> 90) \<or> n = 95 \<or> (97 \<le> n \<and> n \<le> 122) \<or>
     n = 170 \<or> n = 178 \<or> n = 179 \<or> n = 181 \<or> n = 185 \<or> n = 186 \<or>
     (188 \<le> n \<and> n \<le> 190) \<or> (192 \<le> n \<and> n \<le> 214) \<or> (216 \<le> n \<and> n \<le> 246) \<or>
     (248 \<le> n \<and> n \<le> 255))"

definition is_digit_or_dot :: "char \<Rightarrow> bool" where
  \<comment> \<open>\<open>[\d.]\<close>\<close>
  "is_digit_or_dot c = (is_digit c \<or> c = CHR ''.'')"

definition newline :: char where
  "newline = CHR 0x0A"

definition rstrip_nl :: "string \<Rightarrow> string" where
  \<comment> \<open>\<open>line.rstrip("\n")\<close>\<close>
  "rstrip_nl s = rev (dropWhile (\<lambda>c. c = newline) (rev s))"

definition strip :: "string \<Rightarrow> string" where
  \<comment> \<open>\<open>str.strip()\<close>\<close>
  "strip s = rev (dropWhile is_space (rev (dropWhile is_space s)))"

fun split_ws :: "string \<Rightarrow> string \<Rightarrow> string list" where
  \<comment> \<open>\<open>str.split()\<close>: the maximal runs of non-whitespace; the first argument is the
      run being read\<close>
  "split_ws w [] = (if w = [] then [] else [w])"
| "split_ws w (c # cs) =
     (if is_space c then (if w = [] then split_ws [] cs else w # split_ws [] cs)
      else split_ws (w @ [c]) cs)"

definition split_on :: "char \<Rightarrow> string \<Rightarrow> string list" where
  \<comment> \<open>\<open>str.split(sep)\<close> for a one-character separator\<close>
  "split_on sep s = foldr (\<lambda>c acc. if c = sep then [] # acc else (c # hd acc) # tl acc) s [[]]"

definition digits_value :: "string \<Rightarrow> int" where
  \<comment> \<open>the number that a string of decimal digits denotes\<close>
  "digits_value s = foldl (\<lambda>n c. 10 * n + (of_char c - 48)) 0 s"

datatype error = ValueError

definition int_max_str_digits :: nat where
  \<comment> \<open>the default of \<open>sys.get_int_max_str_digits()\<close>\<close>
  "int_max_str_digits = 4300"

definition py_int :: "string \<Rightarrow> error + int" where
  \<comment> \<open>\<open>int(s)\<close> on a non-empty string of decimal digits\<close>
  "py_int s = (if int_max_str_digits < length s then Inl ValueError else Inr (digits_value s))"

section \<open>The patterns\<close>

text \<open>
  Each pattern is a sequence of literals and greedy character classes in which the
  character after a class lies outside it, so the greedy class takes the maximal run and
  no backtracking changes the result. \<open>re.search\<close> on a pattern that starts with
  \<open>.*?\<close> matches the remainder at the leftmost position where it matches.
\<close>

fun lit :: "string \<Rightarrow> string \<Rightarrow> string option" where
  \<comment> \<open>a literal: the input after it\<close>
  "lit [] s = Some s"
| "lit (p # ps) [] = None"
| "lit (p # ps) (c # cs) = (if p = c then lit ps cs else None)"

definition many1 :: "(char \<Rightarrow> bool) \<Rightarrow> string \<Rightarrow> (string \<times> string) option" where
  \<comment> \<open>a class followed by \<open>+\<close>: the run and the input after it\<close>
  "many1 P s = (if takeWhile P s = [] then None else Some (takeWhile P s, dropWhile P s))"

definition once :: "(char \<Rightarrow> bool) \<Rightarrow> string \<Rightarrow> (string \<times> string) option" where
  \<comment> \<open>a class, once\<close>
  "once P s = (case s of [] \<Rightarrow> None | c # cs \<Rightarrow> if P c then Some ([c], cs) else None)"

fun search :: "(string \<Rightarrow> 'a option) \<Rightarrow> string \<Rightarrow> 'a option" where
  \<comment> \<open>the match at the leftmost position\<close>
  "search f [] = f []"
| "search f (c # cs) = (case f (c # cs) of Some m \<Rightarrow> Some m | None \<Rightarrow> search f cs)"

definition contains :: "string \<Rightarrow> string \<Rightarrow> bool" where
  \<comment> \<open>\<open>sub in line\<close>\<close>
  "contains sub line = (search (lit sub) line \<noteq> None)"

datatype conn_match = ConnMatch
  (c_conn_hex_id: string) (c_raw_ip_port: string) (c_open_connections: string) (c_limit: string)

definition CONNECTION_at :: "string \<Rightarrow> conn_match option" where
  "CONNECTION_at s =
     Option.bind (lit ''Incoming Conn{'' s) (\<lambda>r.
     Option.bind (many1 is_hex r) (\<lambda>(conn_hex_id, r).
     Option.bind (lit ''} on '' r) (\<lambda>r.
     Option.bind (many1 (\<lambda>c. \<not> is_space c) r) (\<lambda>(raw_ip_port, r).
     Option.bind (lit '' accepted, '' r) (\<lambda>r.
     Option.bind (many1 is_digit r) (\<lambda>(open_connections, r).
     Option.bind (lit '' of '' r) (\<lambda>r.
     Option.bind (many1 is_digit r) (\<lambda>(limit, r).
     Some (ConnMatch conn_hex_id raw_ip_port open_connections limit)))))))))"

definition CONNECTION :: "string \<Rightarrow> conn_match option" where
  \<comment> \<open>\<open>CONNECTION.search(line)\<close>\<close>
  "CONNECTION line = search CONNECTION_at line"

datatype new_query_match = NewQueryMatch
  (n_conn_hex_id: string) (n_query_hex_id: string) (n_query_id: string) (n_text_decoded: string)

definition NEW_QUERY_at :: "string \<Rightarrow> new_query_match option" where
  "NEW_QUERY_at s =
     Option.bind (lit ''On Conn{'' s) (\<lambda>r.
     Option.bind (many1 is_hex r) (\<lambda>(conn_hex_id, r).
     Option.bind (lit ''} new Query{'' r) (\<lambda>r.
     Option.bind (many1 is_hex r) (\<lambda>(query_hex_id, r).
     Option.bind (lit ''} ['' r) (\<lambda>r.
     Option.bind (many1 is_digit r) (\<lambda>(query_id, r).
     Option.bind (lit '']: '' r) (\<lambda>r.
     Option.bind (many1 (\<lambda>c. c \<noteq> newline) r) (\<lambda>(text_decoded, r).
     Some (NewQueryMatch conn_hex_id query_hex_id query_id text_decoded)))))))))"

definition NEW_QUERY :: "string \<Rightarrow> new_query_match option" where
  \<comment> \<open>\<open>NEW_QUERY.search(line)\<close>\<close>
  "NEW_QUERY line = search NEW_QUERY_at line"

datatype end_match = EndMatch
  (e_query_hex_id: string) (e_query_id: string) (e_status: string) (e_time_total_ms: string)
  (e_time_in_queue_ms: string) (e_time_working_ms: string) (e_response_size_bytes: string)

definition END_at :: "string \<Rightarrow> end_match option" where
  "END_at s =
     Option.bind (lit ''End Query{'' s) (\<lambda>r.
     Option.bind (many1 is_hex r) (\<lambda>(query_hex_id, r).
     Option.bind (lit ''} ['' r) (\<lambda>r.
     Option.bind (many1 is_digit r) (\<lambda>(query_id, r).
     Option.bind (lit ''], '' r) (\<lambda>r.
     Option.bind (many1 is_word r) (\<lambda>(status, r).
     Option.bind (lit '','' r) (\<lambda>r.
     Option.bind (once is_space r) (\<lambda>(sp, r).
     Option.bind (lit ''spent { '' r) (\<lambda>r.
     Option.bind (many1 is_digit_or_dot r) (\<lambda>(time_total_ms, r).
     Option.bind (lit '' : '' r) (\<lambda>r.
     Option.bind (many1 is_digit_or_dot r) (\<lambda>(time_in_queue_ms, r).
     Option.bind (lit '' queue, '' r) (\<lambda>r.
     Option.bind (many1 is_digit_or_dot r) (\<lambda>(time_working_ms, r).
     Option.bind (lit '' work } ms, '' r) (\<lambda>r.
     Option.bind (many1 is_digit r) (\<lambda>(response_size_bytes, r).
     Option.bind (lit '' bytes'' r) (\<lambda>r.
     Some (EndMatch query_hex_id query_id status time_total_ms time_in_queue_ms
             time_working_ms response_size_bytes))))))))))))))))))"

definition END :: "string \<Rightarrow> end_match option" where
  \<comment> \<open>\<open>END.search(line)\<close>\<close>
  "END line = search END_at line"

definition count :: "(char \<Rightarrow> bool) \<Rightarrow> nat \<Rightarrow> string \<Rightarrow> (string \<times> string) option" where
  \<comment> \<open>a class followed by \<open>{n}\<close>\<close>
  "count P n s =
     (if length (take n s) = n \<and> list_all P (take n s) then Some (take n s, drop n s) else None)"

definition INTERNAL_TIMESTAMP_at :: "string \<Rightarrow> (string \<times> string \<times> string \<times> string) option" where
  "INTERNAL_TIMESTAMP_at s =
     Option.bind (lit ''['' s) (\<lambda>r.
     Option.bind (count is_digit 2 r) (\<lambda>(dd, r).
     Option.bind (lit ''.'' r) (\<lambda>r.
     Option.bind (count is_digit 2 r) (\<lambda>(mm, r).
     Option.bind (lit ''.'' r) (\<lambda>r.
     Option.bind (count is_digit 2 r) (\<lambda>(yy, r).
     Option.bind (lit '' '' r) (\<lambda>r.
     Option.bind (count is_digit 2 r) (\<lambda>(h, r).
     Option.bind (lit '':'' r) (\<lambda>r.
     Option.bind (count is_digit 2 r) (\<lambda>(m, r).
     Option.bind (lit '':'' r) (\<lambda>r.
     Option.bind (count is_digit 2 r) (\<lambda>(s, r).
     Option.bind (lit '']'' r) (\<lambda>r.
     Some (dd, mm, yy, h @ '':'' @ m @ '':'' @ s))))))))))))))"

definition INTERNAL_TIMESTAMP :: "string \<Rightarrow> (string \<times> string \<times> string \<times> string) option" where
  \<comment> \<open>\<open>INTERNAL_TIMESTAMP.search(line)\<close>, then \<open>match.groups()\<close>\<close>
  "INTERNAL_TIMESTAMP line = search INTERNAL_TIMESTAMP_at line"

section \<open>Floats\<close>

text \<open>
  A Python \<open>float\<close> is an IEEE 754 binary64 number. The program only forms non-negative
  ones: \<open>Fin m e\<close> is \<open>m * 2 ^ e\<close> with \<open>0 \<le> m < 2 ^ 53\<close> and \<open>- 1074 \<le> e \<le> 971\<close>,
  where \<open>2 ^ 52 \<le> m\<close> unless \<open>e = - 1074\<close>, so that a number has one representation.
  Every operation rounds the exact result to the nearest such number, ties to the even
  significand, and to \<open>PosInf\<close> from \<open>2 ^ 1024 - 2 ^ 970\<close> on.
\<close>

datatype pyfloat = Fin int int | PosInf | NaN

definition fzero :: pyfloat where
  \<comment> \<open>\<open>0.0\<close>\<close>
  "fzero = Fin 0 (- 1074)"

definition floor_log2 :: "int \<Rightarrow> int \<Rightarrow> int \<Rightarrow> int" where
  \<comment> \<open>the \<open>lg\<close> with \<open>2 ^ lg \<le> p / q * 2 ^ k < 2 ^ (lg + 1)\<close>, for \<open>0 < p\<close> and \<open>0 < q\<close>\<close>
  "floor_log2 p q k =
     (let s = bitlen q - bitlen p in
      k - s - (if (if 0 \<le> s then q \<le> p * 2 ^ nat s else q * 2 ^ nat (- s) \<le> p) then 0 else 1))"

definition round_half_even :: "int \<Rightarrow> int \<Rightarrow> int" where
  \<comment> \<open>the integer nearest to \<open>num / den\<close>, the even one of two that are equally near\<close>
  "round_half_even num den =
     (let m0 = num div den; r = num mod den in
      if 2 * r < den \<or> (2 * r = den \<and> even m0) then m0 else m0 + 1)"

definition fround :: "int \<Rightarrow> int \<Rightarrow> int \<Rightarrow> pyfloat" where
  \<comment> \<open>the float nearest to \<open>p / q * 2 ^ k\<close>, for \<open>0 \<le> p\<close> and \<open>0 < q\<close>\<close>
  "fround p q k =
     (if p = 0 then fzero
      else
        let e = max (floor_log2 p q k - 52) (- 1074);
            t = k - e;
            m = round_half_even (if 0 \<le> t then p * 2 ^ nat t else p)
                                (if 0 \<le> t then q else q * 2 ^ nat (- t))
        in if m = 2 ^ 53 then (if 971 < e + 1 then PosInf else Fin (2 ^ 52) (e + 1))
           else if 971 < e then PosInf
           else Fin m e)"

fun fadd :: "pyfloat \<Rightarrow> pyfloat \<Rightarrow> pyfloat" where
  \<comment> \<open>\<open>a + b\<close>\<close>
  "fadd (Fin m1 e1) (Fin m2 e2) =
     (let e = min e1 e2 in fround (m1 * 2 ^ nat (e1 - e) + m2 * 2 ^ nat (e2 - e)) 1 e)"
| "fadd NaN _ = NaN"
| "fadd _ NaN = NaN"
| "fadd _ _ = PosInf"

fun fdiv :: "pyfloat \<Rightarrow> pyfloat \<Rightarrow> pyfloat" where
  \<comment> \<open>\<open>a / b\<close>; the program divides by positive numbers only (Python raises
      \<open>ZeroDivisionError\<close> at \<open>0.0\<close>, which the callers exclude before dividing)\<close>
  "fdiv (Fin m1 e1) (Fin m2 e2) = (if m2 = 0 then NaN else fround m1 m2 (e1 - e2))"
| "fdiv NaN _ = NaN"
| "fdiv _ NaN = NaN"
| "fdiv (Fin m1 e1) PosInf = fzero"
| "fdiv PosInf (Fin m2 e2) = PosInf"
| "fdiv PosInf PosInf = NaN"

fun fless :: "pyfloat \<Rightarrow> pyfloat \<Rightarrow> bool" where
  \<comment> \<open>\<open>a < b\<close>\<close>
  "fless (Fin m1 e1) (Fin m2 e2) =
     (let e = min e1 e2 in m1 * 2 ^ nat (e1 - e) < m2 * 2 ^ nat (e2 - e))"
| "fless (Fin m1 e1) PosInf = True"
| "fless _ _ = False"

definition fle :: "pyfloat \<Rightarrow> pyfloat \<Rightarrow> bool" where
  \<comment> \<open>\<open>a <= b\<close>\<close>
  "fle a b = (a \<noteq> NaN \<and> b \<noteq> NaN \<and> \<not> fless b a)"

definition float_of_int :: "int \<Rightarrow> pyfloat" where
  \<comment> \<open>\<open>float(c)\<close> for an \<open>int\<close> \<open>c \<ge> 0\<close>, and the conversion of the \<open>int\<close> operand
      of \<open>/\<close>; counts stay below \<open>2 ^ 1024\<close>, where Python converts without error\<close>
  "float_of_int c = fround c 1 0"

definition int_truediv :: "int \<Rightarrow> int \<Rightarrow> pyfloat" where
  \<comment> \<open>\<open>a / b\<close> for two \<open>int\<close>s with \<open>0 \<le> a\<close> and \<open>0 < b\<close>: the quotient, rounded once\<close>
  "int_truediv a b = fround a b 0"

definition py_float :: "string \<Rightarrow> error + pyfloat" where
  \<comment> \<open>\<open>float(s)\<close> on the strings \<open>[\d.]+\<close> matches: decimal digits with at most one
      point and at least one digit; anything else in that language raises\<close>
  "py_float s =
     (let ip = takeWhile is_digit s;
          fp = drop 1 (dropWhile is_digit s)
      in if list_all is_digit fp \<and> (ip @ fp \<noteq> [])
            \<and> (dropWhile is_digit s = [] \<or> hd (dropWhile is_digit s) = CHR ''.'')
         then Inr (fround (digits_value (ip @ fp)) (10 ^ length fp) 0)
         else Inl ValueError)"

section \<open>Dates\<close>

text \<open>
  A naive \<open>datetime\<close> without microseconds is the tuple (year, month, day, hour, minute,
  second); Python compares two of them field by field in this order, which is the
  lexicographic order of the tuples.
\<close>

type_synonym datetime = "int \<times> int \<times> int \<times> int \<times> int \<times> int"

definition is_leap :: "int \<Rightarrow> bool" where
  "is_leap y = (y mod 4 = 0 \<and> (y mod 100 \<noteq> 0 \<or> y mod 400 = 0))"

definition days_in_month :: "int \<Rightarrow> int \<Rightarrow> int" where
  "days_in_month y m =
     (if m = 2 then (if is_leap y then 29 else 28)
      else if m = 4 \<or> m = 6 \<or> m = 9 \<or> m = 11 then 30 else 31)"

definition days_before_year :: "int \<Rightarrow> int" where
  "days_before_year y = (y - 1) * 365 + (y - 1) div 4 - (y - 1) div 100 + (y - 1) div 400"

definition days_before_month :: "int \<Rightarrow> int \<Rightarrow> int" where
  "days_before_month y m = sum_list (map (days_in_month y) [1..m - 1])"

definition ymd2ord :: "int \<Rightarrow> int \<Rightarrow> int \<Rightarrow> int" where
  "ymd2ord y m d = days_before_year y + days_before_month y m + d"

definition total_seconds :: "datetime \<Rightarrow> datetime \<Rightarrow> int" where
  \<comment> \<open>\<open>(a - b).total_seconds()\<close>: a whole number of seconds, which Python returns as the
      nearest \<open>float\<close>\<close>
  "total_seconds a b =
     (case (a, b) of ((y1, m1, d1, H1, M1, S1), (y2, m2, d2, H2, M2, S2)) \<Rightarrow>
        (ymd2ord y1 m1 d1 - ymd2ord y2 m2 d2) * 86400
        + ((H1 * 3600 + M1 * 60 + S1) - (H2 * 3600 + M2 * 60 + S2)))"

definition strptime :: "string \<Rightarrow> error + datetime" where
  \<comment> \<open>\<open>datetime.strptime(s, "%Y-%m-%d %H:%M:%S")\<close> on the strings the program builds:
      four digits, then five groups of two digits, separated as in the format\<close>
  "strptime s =
     (let y = digits_value (take 4 s);
          m = digits_value (take 2 (drop 5 s));
          d = digits_value (take 2 (drop 8 s));
          H = digits_value (take 2 (drop 11 s));
          M = digits_value (take 2 (drop 14 s));
          S = digits_value (take 2 (drop 17 s))
      in if 1 \<le> m \<and> m \<le> 12 \<and> 1 \<le> d \<and> d \<le> days_in_month y m \<and> H \<le> 23 \<and> M \<le> 59 \<and> S \<le> 59
         then Inr (y, m, d, H, M, S)
         else Inl ValueError)"

section \<open>Addresses\<close>

definition parse_octet_ok :: "string \<Rightarrow> bool" where
  \<comment> \<open>\<open>IPv4Address._parse_octet\<close> of the standard library returns, rather than raises:
      ASCII digits only, at most three, no leading zero except in \<open>0\<close>, at most 255\<close>
  "parse_octet_ok octet_str =
     (octet_str \<noteq> [] \<and> list_all is_digit octet_str \<and> length octet_str \<le> 3
      \<and> \<not> (octet_str \<noteq> ''0'' \<and> hd octet_str = CHR ''0'') \<and> digits_value octet_str \<le> 255)"

definition is_valid_ipv4 :: "string \<Rightarrow> bool" where
  \<comment> \<open>\<open>IPv4Address(raw)\<close> does not raise \<open>ValueError\<close>\<close>
  "is_valid_ipv4 raw =
     (CHR ''/'' \<notin> set raw \<and> raw \<noteq> []
      \<and> length (split_on (CHR ''.'') raw) = 4 \<and> list_all parse_octet_ok (split_on (CHR ''.'') raw))"

definition extract_ip :: "string \<Rightarrow> string option" where
  "extract_ip raw =
     (if CHR '':'' \<in> set raw then
        (let ip = takeWhile (\<lambda>c. c \<noteq> CHR '':'') raw in
         if is_valid_ipv4 ip then Some ip else None)
      else if is_valid_ipv4 raw then Some raw else None)"

section \<open>The parser\<close>

record parser =
  connections :: "string \<rightharpoonup> string"
  query_to_ip :: "int \<rightharpoonup> string"
  request_freq :: "string \<rightharpoonup> nat"
  total_words :: int
  all_ips :: "string set"
  invalid_ips :: "string set"
  first_end_time :: "datetime option"
  last_end_time :: "datetime option"
  total_time_working_ms :: pyfloat
  total_time_with_waiting_ms :: pyfloat
  max_handling_time_working_ms :: pyfloat
  max_handling_time_with_waiting_ms :: pyfloat
  new_query_ids :: "int set"
  finished_query_ids :: "int set"

definition init :: parser where
  \<comment> \<open>\<open>Parser.__init__\<close>\<close>
  "init = \<lparr> connections = Map.empty, query_to_ip = Map.empty, request_freq = Map.empty,
            total_words = 0, all_ips = {}, invalid_ips = {},
            first_end_time = None, last_end_time = None,
            total_time_working_ms = fzero, total_time_with_waiting_ms = fzero,
            max_handling_time_working_ms = fzero, max_handling_time_with_waiting_ms = fzero,
            new_query_ids = {}, finished_query_ids = {} \<rparr>"

definition parse_connection :: "parser \<Rightarrow> string \<Rightarrow> parser \<times> bool" where
  "parse_connection s line =
     (case CONNECTION line of
        None \<Rightarrow> (s, False)
      | Some match \<Rightarrow>
          let conn_hex_id = c_conn_hex_id match;
              raw_ip_port = c_raw_ip_port match
          in (case extract_ip raw_ip_port of
                Some ip \<Rightarrow>
                  if ip \<noteq> [] then
                    (s\<lparr>all_ips := insert ip (all_ips s),
                       connections := (connections s)(conn_hex_id \<mapsto> ip)\<rparr>, True)
                  else
                    (s\<lparr>invalid_ips := insert raw_ip_port (invalid_ips s),
                       connections := (connections s)(conn_hex_id \<mapsto> raw_ip_port)\<rparr>, True)
              | None \<Rightarrow>
                  (s\<lparr>invalid_ips := insert raw_ip_port (invalid_ips s),
                     connections := (connections s)(conn_hex_id \<mapsto> raw_ip_port)\<rparr>, True)))"

definition parse_new_query :: "parser \<Rightarrow> string \<Rightarrow> error + parser \<times> bool" where
  "parse_new_query s line =
     (case NEW_QUERY line of
        None \<Rightarrow> Inr (s, False)
      | Some match \<Rightarrow>
        (case py_int (n_query_id match) of
           Inl e \<Rightarrow> Inl e
         | Inr query_id \<Rightarrow>
          if query_id \<in> new_query_ids s then Inr (s, True)
          else
            let s1 = s\<lparr>new_query_ids := insert query_id (new_query_ids s)\<rparr>;
                text_decoded = strip (n_text_decoded match);
                conn_hex_id = n_conn_hex_id match;
                s2 = (case connections s1 conn_hex_id of
                        Some ip \<Rightarrow>
                          if ip \<noteq> [] then s1\<lparr>query_to_ip := (query_to_ip s1)(query_id \<mapsto> ip)\<rparr>
                          else s1
                      | None \<Rightarrow> s1);
                s3 = (if text_decoded \<noteq> [] then
                        s2\<lparr>request_freq := (request_freq s2)(text_decoded \<mapsto>
                               (case request_freq s2 text_decoded of None \<Rightarrow> 0 | Some n \<Rightarrow> n) + 1),
                           total_words := total_words s2 + int (length (split_ws [] text_decoded))\<rparr>
                      else s2)
            in Inr (s3, True)))"

definition extract_internal_timestamp :: "string \<Rightarrow> error + datetime option" where
  "extract_internal_timestamp line =
     (case INTERNAL_TIMESTAMP line of
        None \<Rightarrow> Inr None
      | Some (dd, mm, yy, hms) \<Rightarrow>
          (case strptime (''20'' @ yy @ ''-'' @ mm @ ''-'' @ dd @ '' '' @ hms) of
             Inl e \<Rightarrow> Inl e
           | Inr ts \<Rightarrow> Inr (Some ts)))"

definition parse_end_query :: "parser \<Rightarrow> string \<Rightarrow> error + parser \<times> bool" where
  "parse_end_query s line =
     (case END line of
        None \<Rightarrow> Inr (s, False)
      | Some match \<Rightarrow>
        (case py_int (e_query_id match) of
           Inl e \<Rightarrow> Inl e
         | Inr query_id \<Rightarrow>
          if query_id \<in> finished_query_ids s then Inr (s, True)
          else
            let s1 = s\<lparr>finished_query_ids := insert query_id (finished_query_ids s)\<rparr> in
            (case py_float (e_time_total_ms match) of
               Inl e \<Rightarrow> Inl e
             | Inr time_total_ms \<Rightarrow>
            (case py_float (e_time_working_ms match) of
               Inl e \<Rightarrow> Inl e
             | Inr time_working_ms \<Rightarrow>
                 let s2 = s1\<lparr>total_time_with_waiting_ms :=
                               fadd (total_time_with_waiting_ms s1) time_total_ms,
                             total_time_working_ms :=
                               fadd (total_time_working_ms s1) time_working_ms\<rparr>;
                     s3 = (if fless (max_handling_time_with_waiting_ms s2) time_total_ms
                           then s2\<lparr>max_handling_time_with_waiting_ms := time_total_ms\<rparr> else s2);
                     s4 = (if fless (max_handling_time_working_ms s3) time_working_ms
                           then s3\<lparr>max_handling_time_working_ms := time_working_ms\<rparr> else s3)
                 in (case extract_internal_timestamp line of
                       Inl e \<Rightarrow> Inl e
                     | Inr None \<Rightarrow> Inr (s4, True)
                     | Inr (Some ts) \<Rightarrow>
                         let s5 = (case first_end_time s4 of
                                     None \<Rightarrow> s4\<lparr>first_end_time := Some ts\<rparr>
                                   | Some f \<Rightarrow> if ts < f then s4\<lparr>first_end_time := Some ts\<rparr> else s4);
                             s6 = (case last_end_time s5 of
                                     None \<Rightarrow> s5\<lparr>last_end_time := Some ts\<rparr>
                                   | Some l \<Rightarrow> if l < ts then s5\<lparr>last_end_time := Some ts\<rparr> else s5)
                         in Inr (s6, True))))))"

definition parse_line :: "parser \<Rightarrow> string \<Rightarrow> error + parser" where
  \<comment> \<open>the body of the loop of \<open>Parser.parse\<close>\<close>
  "parse_line s raw_line =
     (let line = rstrip_nl raw_line in
      if contains ''Incoming Conn{'' line \<and> snd (parse_connection s line)
      then Inr (fst (parse_connection s line))
      else
        (case (if contains ''On Conn{'' line then parse_new_query s line else Inr (s, False)) of
           Inl e \<Rightarrow> Inl e
         | Inr (s', True) \<Rightarrow> Inr s'
         | Inr (s', False) \<Rightarrow>
             if contains ''End Query{'' line
             then (case parse_end_query s line of Inl e \<Rightarrow> Inl e | Inr (s'', _) \<Rightarrow> Inr s'')
             else Inr s))"

fun parse :: "parser \<Rightarrow> string list \<Rightarrow> error + parser" where
  \<comment> \<open>\<open>Parser.parse\<close> over the lines of the file; an exception ends the loop\<close>
  "parse s [] = Inr s"
| "parse s (line # lines) = (case parse_line s line of Inl e \<Rightarrow> Inl e | Inr s' \<Rightarrow> parse s' lines)"

definition average_words :: "parser \<Rightarrow> pyfloat" where
  "average_words s =
     (let n = int (card (new_query_ids s)) in
      if n \<noteq> 0 then int_truediv (total_words s) n else fzero)"

definition average_times :: "parser \<Rightarrow> pyfloat \<times> pyfloat" where
  "average_times s =
     (let c = int (card (finished_query_ids s)) in
      if c = 0 then (fzero, fzero)
      else (fdiv (total_time_working_ms s) (float_of_int c),
            fdiv (total_time_with_waiting_ms s) (float_of_int c)))"

definition max_times :: "parser \<Rightarrow> pyfloat \<times> pyfloat" where
  "max_times s = (max_handling_time_working_ms s, max_handling_time_with_waiting_ms s)"

definition rps :: "parser \<Rightarrow> pyfloat" where
  "rps s =
     (let c = int (card (finished_query_ids s)) in
      if c = 0 \<or> first_end_time s = None \<or> last_end_time s = None then fzero
      else
        let span = total_seconds (the (last_end_time s)) (the (first_end_time s)) in
        if span \<le> 0 then float_of_int c
        else fdiv (float_of_int c) (float_of_int span))"

section \<open>Notions used to state the properties\<close>

definition as_new_query :: "string \<Rightarrow> new_query_match option" where
  \<comment> \<open>the match of a stripped line that the loop body hands to \<open>_parse_new_query\<close> and
      that matches there\<close>
  "as_new_query line =
     (if contains ''Incoming Conn{'' line \<and> CONNECTION line \<noteq> None then None
      else if contains ''On Conn{'' line then NEW_QUERY line
      else None)"

definition as_end_query :: "string \<Rightarrow> end_match option" where
  \<comment> \<open>the match of a stripped line that the loop body hands to \<open>_parse_end_query\<close> and
      that matches there\<close>
  "as_end_query line =
     (if contains ''Incoming Conn{'' line \<and> CONNECTION line \<noteq> None then None
      else if contains ''On Conn{'' line \<and> NEW_QUERY line \<noteq> None then None
      else if contains ''End Query{'' line then END line
      else None)"

definition first_seen_end :: "parser \<Rightarrow> string \<Rightarrow> bool" where
  \<comment> \<open>the line is a query-end line whose numeric id has not finished yet\<close>
  "first_seen_end s raw_line =
     (case as_end_query (rstrip_nl raw_line) of
        None \<Rightarrow> False
      | Some match \<Rightarrow>
          (case py_int (e_query_id match) of
             Inl e \<Rightarrow> False
           | Inr query_id \<Rightarrow> query_id \<notin> finished_query_ids s))"

fun end_timestamps :: "parser \<Rightarrow> string list \<Rightarrow> datetime list" where
  \<comment> \<open>the timestamps extracted from the first-seen query-end lines, in input order\<close>
  "end_timestamps s [] = []"
| "end_timestamps s (raw_line # lines) =
     (case parse_line s raw_line of
        Inl e \<Rightarrow> []
      | Inr s' \<Rightarrow>
          (if first_seen_end s raw_line then
             (case extract_internal_timestamp (rstrip_nl raw_line) of
                Inr (Some ts) \<Rightarrow> [ts]
              | _ \<Rightarrow> [])
           else [])
          @ end_timestamps s' lines)"

fun end_durations :: "parser \<Rightarrow> string list \<Rightarrow> (pyfloat \<times> pyfloat) list" where
  \<comment> \<open>the (working, total) milliseconds of the first-seen query-end lines, in input order\<close>
  "end_durations s [] = []"
| "end_durations s (raw_line # lines) =
     (case parse_line s raw_line of
        Inl e \<Rightarrow> []
      | Inr s' \<Rightarrow>
          (if first_seen_end s raw_line then
             (case as_end_query (rstrip_nl raw_line) of
                Some match \<Rightarrow>
                  (case (py_float (e_time_working_ms match), py_float (e_time_total_ms match)) of
                     (Inr w, Inr t) \<Rightarrow> [(w, t)]
                   | _ \<Rightarrow> [])
              | None \<Rightarrow> [])
           else [])
          @ end_durations s' lines)"

definition fval :: "pyfloat \<Rightarrow> rat" where
  \<comment> \<open>the number a finite float stands for\<close>
  "fval x = (case x of Fin m e \<Rightarrow> of_int m * 2 powi e | _ \<Rightarrow> 0)"

definition candidate :: "string \<Rightarrow> string" where
  \<comment> \<open>the part of a raw token that is validated: up to the first colon, if there is one\<close>
  "candidate raw = (if CHR '':'' \<in> set raw then takeWhile (\<lambda>c. c \<noteq> CHR '':'') raw else raw)"

definition is_dotted_quad :: "string \<Rightarrow> bool" where
  \<comment> \<open>four dot-separated decimal groups, each in [0,255], and nothing else\<close>
  "is_dotted_quad s =
     (length (split_on (CHR ''.'') s) = 4
      \<and> list_all (\<lambda>g. g \<noteq> [] \<and> list_all is_digit g \<and> digits_value g \<le> 255)
           (split_on (CHR ''.'') s))"

definition is_strict_quad :: "string \<Rightarrow> bool" where
  \<comment> \<open>four dot-separated groups of one to three decimal digits, each in [0,255] and
      without a leading zero unless it is \<open>0\<close>\<close>
  "is_strict_quad s =
     (length (split_on (CHR ''.'') s) = 4
      \<and> list_all (\<lambda>g. g \<noteq> [] \<and> list_all is_digit g \<and> length g \<le> 3
                      \<and> (g = ''0'' \<or> hd g \<noteq> CHR ''0'') \<and> digits_value g \<le> 255)
           (split_on (CHR ''.'') s))"

definition record_end :: "parser \<Rightarrow> int \<Rightarrow> pyfloat \<Rightarrow> pyfloat \<Rightarrow> datetime option \<Rightarrow> parser" where
  \<comment> \<open>the state after a first-seen query-end line with total time \<open>t\<close>, working time
      \<open>w\<close> and extracted timestamp \<open>ts\<close>\<close>
  "record_end s query_id t w ts =
     s\<lparr>finished_query_ids := insert query_id (finished_query_ids s),
       total_time_with_waiting_ms := fadd (total_time_with_waiting_ms s) t,
       total_time_working_ms := fadd (total_time_working_ms s) w,
       max_handling_time_with_waiting_ms :=
         (if fless (max_handling_time_with_waiting_ms s) t then t
          else max_handling_time_with_waiting_ms s),
       max_handling_time_working_ms :=
         (if fless (max_handling_time_working_ms s) w then w
          else max_handling_time_working_ms s),
       first_end_time :=
         (case ts of
            None \<Rightarrow> first_end_time s
          | Some x \<Rightarrow>
              (case first_end_time s of
                 None \<Rightarrow> Some x
               | Some f \<Rightarrow> if x < f then Some x else Some f)),
       last_end_time :=
         (case ts of
            None \<Rightarrow> last_end_time s
          | Some x \<Rightarrow>
              (case last_end_time s of
                 None \<Rightarrow> Some x
               | Some l \<Rightarrow> if l < x then Some x else Some l))\<rparr>"

definition record_start :: "parser \<Rightarrow> int \<Rightarrow> string \<Rightarrow> string \<Rightarrow> parser" where
  \<comment> \<open>the state after a first-seen query-start line on connection \<open>conn\<close> with the
      stripped request text \<open>text\<close>\<close>
  "record_start s query_id conn text =
     s\<lparr>new_query_ids := insert query_id (new_query_ids s),
       query_to_ip :=
         (case connections s conn of
            None \<Rightarrow> query_to_ip s
          | Some ip \<Rightarrow> if ip \<noteq> [] then (query_to_ip s)(query_id \<mapsto> ip) else query_to_ip s),
       request_freq :=
         (if text \<noteq> [] then
            (request_freq s)(text \<mapsto> (case request_freq s text of None \<Rightarrow> 0 | Some n \<Rightarrow> n) + 1)
          else request_freq s),
       total_words :=
         (if text \<noteq> [] then total_words s + int (length (split_ws [] text)) else total_words s)\<rparr>"

definition durations_inv :: "parser \<Rightarrow> (pyfloat \<times> pyfloat) list \<Rightarrow> bool" where
  \<comment> \<open>sums and maxima are non-negative numbers, the maxima bound the (working, total)
      durations \<open>ds\<close>, and there are as many durations as finished queries\<close>
  "durations_inv s ds =
     (fle fzero (total_time_working_ms s) \<and> fle fzero (total_time_with_waiting_ms s)
      \<and> fle fzero (max_handling_time_working_ms s)
      \<and> fle fzero (max_handling_time_with_waiting_ms s)
      \<and> (\<forall>d \<in> set ds. fle (fst d) (max_handling_time_working_ms s)
                        \<and> fle (snd d) (max_handling_time_with_waiting_ms s))
      \<and> finite (finished_query_ids s) \<and> card (finished_query_ids s) = length ds)"

section \<open>Facts about the patterns and the loop body\<close>

lemma search_mono:
  assumes fg: "\<And>s. f s \<noteq> None \<Longrightarrow> g s \<noteq> None"
  shows "search f l \<noteq> None \<Longrightarrow> search g l \<noteq> None"
proof (induction l)
  case Nil
  then show ?case using fg[of "[]"] by simp
next
  case (Cons c cs)
  show ?case
  proof (cases "f (c # cs)")
    case None
    with Cons show ?thesis by (simp split: option.splits)
  next
    case (Some a)
    then have "g (c # cs) \<noteq> None" using fg[of "c # cs"] by simp
    then show ?thesis by (auto split: option.splits)
  qed
qed

lemma NEW_QUERY_at_guard: "NEW_QUERY_at s \<noteq> None \<Longrightarrow> lit ''On Conn{'' s \<noteq> None"
  unfolding NEW_QUERY_at_def by (cases "lit ''On Conn{'' s") simp_all

lemma NEW_QUERY_guard: "NEW_QUERY line \<noteq> None \<Longrightarrow> contains ''On Conn{'' line"
  unfolding NEW_QUERY_def contains_def
  by (rule search_mono[where f = NEW_QUERY_at]) (rule NEW_QUERY_at_guard)


lemma CONNECTION_at_guard: "CONNECTION_at s \<noteq> None \<Longrightarrow> lit ''Incoming Conn{'' s \<noteq> None"
  unfolding CONNECTION_at_def by (cases "lit ''Incoming Conn{'' s") simp_all

lemma CONNECTION_guard: "CONNECTION line \<noteq> None \<Longrightarrow> contains ''Incoming Conn{'' line"
  unfolding CONNECTION_def contains_def
  by (rule search_mono[where f = CONNECTION_at]) (rule CONNECTION_at_guard)

lemma END_at_guard: "END_at s \<noteq> None \<Longrightarrow> lit ''End Query{'' s \<noteq> None"
  unfolding END_at_def by (cases "lit ''End Query{'' s") simp_all

lemma END_guard: "END line \<noteq> None \<Longrightarrow> contains ''End Query{'' line"
  unfolding END_def contains_def
  by (rule search_mono[where f = END_at]) (rule END_at_guard)

lemma search_Some_suffix: "search f l = Some m \<Longrightarrow> \<exists>pre suf. l = pre @ suf \<and> f suf = Some m"
proof (induction l)
  case Nil
  then show ?case by simp
next
  case (Cons c cs)
  show ?case
  proof (cases "f (c # cs)")
    case None
    with Cons.prems have "search f cs = Some m" by simp
    then obtain pre suf where "cs = pre @ suf" "f suf = Some m"
      using Cons.IH by blast
    then have "c # cs = (c # pre) @ suf \<and> f suf = Some m" by simp
    then show ?thesis by blast
  next
    case (Some a)
    with Cons.prems have "f (c # cs) = Some m" by simp
    then have "c # cs = [] @ (c # cs) \<and> f (c # cs) = Some m" by simp
    then show ?thesis by blast
  qed
qed

lemma many1_SomeD: "many1 P s = Some (a, r) \<Longrightarrow> a \<noteq> []"
  by (auto simp: many1_def split: if_splits)

lemma NEW_QUERY_at_text:
  assumes "NEW_QUERY_at s = Some m"
  shows "n_text_decoded m \<noteq> []"
  using assms unfolding NEW_QUERY_at_def
  apply (simp only: Option.bind_eq_Some_conv split_paired_Ex prod.case)
  apply (elim exE conjE)
  apply (drule many1_SomeD)+
  apply (simp only: option.inject)
  apply hypsubst
  apply simp
  done

lemma NEW_QUERY_text_nonempty:
  assumes "NEW_QUERY line = Some m"
  shows "n_text_decoded m \<noteq> []"
proof -
  from assms have "search NEW_QUERY_at line = Some m"
    by (simp add: NEW_QUERY_def)
  then obtain pre suf where "NEW_QUERY_at suf = Some m"
    using search_Some_suffix[of NEW_QUERY_at line m] by blast
  then show ?thesis by (rule NEW_QUERY_at_text)
qed

lemma snd_parse_connection: "snd (parse_connection s line) = (CONNECTION line \<noteq> None)"
  by (simp add: parse_connection_def Let_def split: option.splits)

lemma parse_new_query_None: "NEW_QUERY line = None \<Longrightarrow> parse_new_query s line = Inr (s, False)"
  by (simp add: parse_new_query_def)

lemma parse_end_query_None: "END line = None \<Longrightarrow> parse_end_query s line = Inr (s, False)"
  by (simp add: parse_end_query_def)

lemma parse_line_connection:
  assumes "CONNECTION (rstrip_nl raw) \<noteq> None"
  shows "parse_line s raw = Inr (fst (parse_connection s (rstrip_nl raw)))"
  using assms CONNECTION_guard[OF assms]
  by (simp add: parse_line_def Let_def snd_parse_connection)

lemma parse_line_not_connection:
  assumes "CONNECTION (rstrip_nl raw) = None"
  shows "parse_line s raw =
           (case (if contains ''On Conn{'' (rstrip_nl raw) then parse_new_query s (rstrip_nl raw)
                  else Inr (s, False)) of
              Inl e \<Rightarrow> Inl e
            | Inr (s', True) \<Rightarrow> Inr s'
            | Inr (s', False) \<Rightarrow>
                if contains ''End Query{'' (rstrip_nl raw)
                then (case parse_end_query s (rstrip_nl raw) of
                        Inl e \<Rightarrow> Inl e | Inr (s'', b) \<Rightarrow> Inr s'')
                else Inr s)"
  using assms by (simp add: parse_line_def Let_def snd_parse_connection)

lemma CONNECTION_no_guard: "\<not> contains ''Incoming Conn{'' line \<Longrightarrow> CONNECTION line = None"
  using CONNECTION_guard[of line] by blast

lemma NEW_QUERY_no_guard: "\<not> contains ''On Conn{'' line \<Longrightarrow> NEW_QUERY line = None"
  using NEW_QUERY_guard[of line] by blast

lemma END_no_guard: "\<not> contains ''End Query{'' line \<Longrightarrow> END line = None"
  using END_guard[of line] by blast

lemma as_new_query_eq:
  "as_new_query line = (if CONNECTION line \<noteq> None then None else NEW_QUERY line)"
  by (cases "contains ''Incoming Conn{'' line"; cases "contains ''On Conn{'' line")
    (simp_all add: as_new_query_def CONNECTION_no_guard NEW_QUERY_no_guard)

lemma as_end_query_eq:
  "as_end_query line =
     (if CONNECTION line \<noteq> None then None else if NEW_QUERY line \<noteq> None then None else END line)"
  by (cases "contains ''Incoming Conn{'' line"; cases "contains ''On Conn{'' line";
      cases "contains ''End Query{'' line")
    (simp_all add: as_end_query_def CONNECTION_no_guard NEW_QUERY_no_guard END_no_guard)

lemma as_new_query_iff:
  "as_new_query line = Some m \<longleftrightarrow> CONNECTION line = None \<and> NEW_QUERY line = Some m"
  by (simp add: as_new_query_eq)

lemma as_end_query_iff:
  "as_end_query line = Some m \<longleftrightarrow>
     CONNECTION line = None \<and> NEW_QUERY line = None \<and> END line = Some m"
  by (simp add: as_end_query_eq)

lemma parse_line_new_query:
  assumes "as_new_query (rstrip_nl raw) = Some m"
  shows "parse_line s raw =
           (case parse_new_query s (rstrip_nl raw) of
              Inl e \<Rightarrow> Inl e
            | Inr (s', True) \<Rightarrow> Inr s'
            | Inr (s', False) \<Rightarrow>
                if contains ''End Query{'' (rstrip_nl raw)
                then (case parse_end_query s (rstrip_nl raw) of
                        Inl e \<Rightarrow> Inl e | Inr (s'', b) \<Rightarrow> Inr s'')
                else Inr s)"
proof -
  from assms have c: "CONNECTION (rstrip_nl raw) = None" and n: "NEW_QUERY (rstrip_nl raw) = Some m"
    by (simp_all add: as_new_query_iff)
  from n have "contains ''On Conn{'' (rstrip_nl raw)" by (simp add: NEW_QUERY_guard)
  then show ?thesis by (simp add: parse_line_not_connection[OF c])
qed

lemma parse_line_end_query:
  assumes "as_end_query (rstrip_nl raw) = Some m"
  shows "parse_line s raw =
           (case parse_end_query s (rstrip_nl raw) of Inl e \<Rightarrow> Inl e | Inr (s', b) \<Rightarrow> Inr s')"
proof -
  from assms have c: "CONNECTION (rstrip_nl raw) = None" and n: "NEW_QUERY (rstrip_nl raw) = None"
    and e: "END (rstrip_nl raw) = Some m"
    by (simp_all add: as_end_query_iff)
  from e have "contains ''End Query{'' (rstrip_nl raw)" by (simp add: END_guard)
  then show ?thesis
    by (simp add: parse_line_not_connection[OF c] parse_new_query_None[OF n])
qed

lemma parse_line_unmatched:
  assumes "CONNECTION (rstrip_nl raw) = None" "NEW_QUERY (rstrip_nl raw) = None"
    "END (rstrip_nl raw) = None"
  shows "parse_line s raw = Inr s"
  by (simp add: parse_line_not_connection[OF assms(1)] parse_new_query_None[OF assms(2)]
      parse_end_query_None[OF assms(3)])

section \<open>Normal forms of the handlers\<close>

lemma parse_end_query_eq:
  "parse_end_query s line =
     (case END line of
        None \<Rightarrow> Inr (s, False)
      | Some m \<Rightarrow>
          (case py_int (e_query_id m) of
             Inl e \<Rightarrow> Inl e
           | Inr q \<Rightarrow>
               if q \<in> finished_query_ids s then Inr (s, True)
               else (case py_float (e_time_total_ms m) of
                       Inl e \<Rightarrow> Inl e
                     | Inr t \<Rightarrow>
                         (case py_float (e_time_working_ms m) of
                            Inl e \<Rightarrow> Inl e
                          | Inr w \<Rightarrow>
                              (case extract_internal_timestamp line of
                                 Inl e \<Rightarrow> Inl e
                               | Inr ts \<Rightarrow> Inr (record_end s q t w ts, True))))))"
  by (simp add: parse_end_query_def record_end_def Let_def split: option.splits sum.splits)

lemma parse_new_query_eq:
  "parse_new_query s line =
     (case NEW_QUERY line of
        None \<Rightarrow> Inr (s, False)
      | Some m \<Rightarrow>
          (case py_int (n_query_id m) of
             Inl e \<Rightarrow> Inl e
           | Inr q \<Rightarrow>
               if q \<in> new_query_ids s then Inr (s, True)
               else Inr (record_start s q (n_conn_hex_id m) (strip (n_text_decoded m)), True)))"
  by (simp add: parse_new_query_def record_start_def Let_def split: option.splits sum.splits)

lemma parse_line_start_eq:
  assumes "as_new_query (rstrip_nl raw) = Some m"
  shows "parse_line s raw =
           (case py_int (n_query_id m) of
              Inl e \<Rightarrow> Inl e
            | Inr q \<Rightarrow>
                Inr (if q \<in> new_query_ids s then s
                     else record_start s q (n_conn_hex_id m) (strip (n_text_decoded m))))"
proof -
  from assms have "NEW_QUERY (rstrip_nl raw) = Some m"
    by (simp add: as_new_query_iff)
  then show ?thesis
    by (simp add: parse_line_new_query[OF assms] parse_new_query_eq split: sum.splits)
qed

lemma parse_line_end_eq:
  assumes "as_end_query (rstrip_nl raw) = Some m"
  shows "parse_line s raw =
           (case py_int (e_query_id m) of
              Inl e \<Rightarrow> Inl e
            | Inr q \<Rightarrow>
                if q \<in> finished_query_ids s then Inr s
                else (case py_float (e_time_total_ms m) of
                        Inl e \<Rightarrow> Inl e
                      | Inr t \<Rightarrow>
                          (case py_float (e_time_working_ms m) of
                             Inl e \<Rightarrow> Inl e
                           | Inr w \<Rightarrow>
                               (case extract_internal_timestamp (rstrip_nl raw) of
                                  Inl e \<Rightarrow> Inl e
                                | Inr ts \<Rightarrow> Inr (record_end s q t w ts)))))"
proof -
  from assms have "END (rstrip_nl raw) = Some m"
    by (simp add: as_end_query_iff)
  then show ?thesis
    by (simp add: parse_line_end_query[OF assms] parse_end_query_eq split: sum.splits)
qed

lemma parse_line_not_end:
  assumes "as_end_query (rstrip_nl raw) = None" "parse_line s raw = Inr s'"
  shows "finished_query_ids s' = finished_query_ids s
       \<and> total_time_working_ms s' = total_time_working_ms s
       \<and> total_time_with_waiting_ms s' = total_time_with_waiting_ms s
       \<and> max_handling_time_working_ms s' = max_handling_time_working_ms s
       \<and> max_handling_time_with_waiting_ms s' = max_handling_time_with_waiting_ms s
       \<and> first_end_time s' = first_end_time s \<and> last_end_time s' = last_end_time s"
proof (cases "CONNECTION (rstrip_nl raw)")
  case (Some c)
  then have "parse_line s raw = Inr (fst (parse_connection s (rstrip_nl raw)))"
    by (simp add: parse_line_connection)
  with assms(2) have "s' = fst (parse_connection s (rstrip_nl raw))" by simp
  then show ?thesis
    by (simp add: parse_connection_def Some Let_def split: option.splits)
next
  case None
  note c = this
  show ?thesis
  proof (cases "NEW_QUERY (rstrip_nl raw)")
    case (Some m)
    then have "as_new_query (rstrip_nl raw) = Some m"
      using c by (simp add: as_new_query_iff)
    from parse_line_start_eq[OF this, of s] assms(2) show ?thesis
      by (auto simp: record_start_def split: if_splits sum.splits)
  next
    case None
    with c assms(1) have "END (rstrip_nl raw) = None"
      by (simp add: as_end_query_eq)
    with c None have "parse_line s raw = Inr s" by (simp add: parse_line_unmatched)
    with assms(2) show ?thesis by simp
  qed
qed

lemma record_start_started: "query_id \<in> new_query_ids (record_start s query_id conn text)"
  by (simp add: record_start_def)


section \<open>Repeated query lines\<close>

text \<open>
  C4: a query-start line whose numeric id converts to an \<open>int\<close> is processed without
  error, and feeding it twice leaves the state that feeding it once leaves; so does any
  later query-start line with the same numeric id. If the id was already started the
  line changes nothing; otherwise the first occurrence adds the id to the started set
  (one more started query), and, when the stripped text is not empty, adds one to its
  frequency and its number of words to the word total.
\<close>

theorem query_start_idempotent:
  assumes "as_new_query (rstrip_nl raw) = Some m" and "py_int (n_query_id m) = Inr q"
  shows "\<exists>s1. parse_line s raw = Inr s1 \<and> parse_line s1 raw = Inr s1
           \<and> parse s [raw, raw] = parse s [raw]
           \<and> (\<forall>raw' m'. as_new_query (rstrip_nl raw') = Some m'
                  \<and> py_int (n_query_id m') = Inr q
                  \<longrightarrow> parse_line s1 raw' = Inr s1)
           \<and> (q \<in> new_query_ids s \<longrightarrow> s1 = s)
           \<and> (q \<notin> new_query_ids s \<longrightarrow>
                 new_query_ids s1 = insert q (new_query_ids s)
               \<and> (finite (new_query_ids s) \<longrightarrow>
                    card (new_query_ids s1) = card (new_query_ids s) + 1)
               \<and> request_freq s1 =
                   (if strip (n_text_decoded m) \<noteq> [] then
                      (request_freq s)(strip (n_text_decoded m) \<mapsto>
                         (case request_freq s (strip (n_text_decoded m)) of
                            None \<Rightarrow> 0 | Some n \<Rightarrow> n) + 1)
                    else request_freq s)
               \<and> total_words s1 =
                   (if strip (n_text_decoded m) \<noteq> [] then
                      total_words s + int (length (split_ws [] (strip (n_text_decoded m))))
                    else total_words s))"
proof -
  let ?s1 = "if q \<in> new_query_ids s then s
             else record_start s q (n_conn_hex_id m) (strip (n_text_decoded m))"
  have first: "parse_line s raw = Inr ?s1"
    by (simp add: parse_line_start_eq[OF assms(1)] assms(2))
  have started: "q \<in> new_query_ids ?s1"
    by (simp add: record_start_started)
  have again: "parse_line ?s1 raw' = Inr ?s1"
    if "as_new_query (rstrip_nl raw') = Some m'" "py_int (n_query_id m') = Inr q" for raw' m'
    using parse_line_start_eq[OF that(1), of ?s1] that(2) started by simp
  have second: "parse_line ?s1 raw = Inr ?s1"
    using again[OF assms] by simp
  have twice: "parse s [raw, raw] = parse s [raw]"
    using first second by simp
  have fresh: "new_query_ids ?s1 = insert q (new_query_ids s)
      \<and> (finite (new_query_ids s) \<longrightarrow> card (new_query_ids ?s1) = card (new_query_ids s) + 1)
      \<and> request_freq ?s1 =
           (if strip (n_text_decoded m) \<noteq> [] then
              (request_freq s)(strip (n_text_decoded m) \<mapsto>
                 (case request_freq s (strip (n_text_decoded m)) of None \<Rightarrow> 0 | Some n \<Rightarrow> n) + 1)
            else request_freq s)
      \<and> total_words ?s1 =
           (if strip (n_text_decoded m) \<noteq> [] then
              total_words s + int (length (split_ws [] (strip (n_text_decoded m))))
            else total_words s)"
    if "q \<notin> new_query_ids s"
    using that by (simp add: record_start_def)
  show ?thesis
  proof (intro exI[of _ ?s1] conjI allI impI)
    show "parse_line s raw = Inr ?s1" by (rule first)
    show "parse_line ?s1 raw = Inr ?s1" by (rule second)
    show "parse s [raw, raw] = parse s [raw]" by (rule twice)
    show "parse_line ?s1 raw' = Inr ?s1"
      if "as_new_query (rstrip_nl raw') = Some m' \<and> py_int (n_query_id m') = Inr q" for raw' m'
      using again[of raw' m'] that by blast
    show "?s1 = s" if "q \<in> new_query_ids s" using that by simp
  qed (use fresh in blast)+
qed

theorem query_start_idempotent_witness:
  "as_new_query (rstrip_nl (''On Conn{a1} new Query{b2} [7]: select one'' @ [newline]))
     = Some (NewQueryMatch ''a1'' ''b2'' ''7'' ''select one'')
   \<and> (\<exists>s1. parse init [''On Conn{a1} new Query{b2} [7]: select one'' @ [newline],
                          ''On Conn{a1} new Query{b2} [7]: select one'' @ [newline]] = Inr s1
            \<and> new_query_ids s1 = {7} \<and> card (new_query_ids s1) = 1 \<and> total_words s1 = 2
            \<and> request_freq s1 ''select one'' = Some 1)"
proof -
  let ?raw = "''On Conn{a1} new Query{b2} [7]: select one'' @ [newline]"
  let ?m = "NewQueryMatch ''a1'' ''b2'' ''7'' ''select one''"
  have h: "as_new_query (rstrip_nl ?raw) = Some ?m"
    by code_simp
  have q: "py_int (n_query_id ?m) = Inr 7"
    by code_simp
  have v: "strip (n_text_decoded ?m) = ''select one''"
    "length (split_ws [] ''select one'') = 2"
    by code_simp+
  from query_start_idempotent[OF h q, of init] obtain s1 where
    one: "parse_line init ?raw = Inr s1" and
    twice: "parse init [?raw, ?raw] = parse init [?raw]" and
    fresh: "7 \<notin> new_query_ids init \<longrightarrow>
              new_query_ids s1 = insert 7 (new_query_ids init)
            \<and> (finite (new_query_ids init) \<longrightarrow>
                 card (new_query_ids s1) = card (new_query_ids init) + 1)
            \<and> request_freq s1 =
                (if strip (n_text_decoded ?m) \<noteq> [] then
                   (request_freq init)(strip (n_text_decoded ?m) \<mapsto>
                      (case request_freq init (strip (n_text_decoded ?m)) of
                         None \<Rightarrow> 0 | Some n \<Rightarrow> n) + 1)
                 else request_freq init)
            \<and> total_words s1 =
                (if strip (n_text_decoded ?m) \<noteq> [] then
                   total_words init + int (length (split_ws [] (strip (n_text_decoded ?m))))
                 else total_words init)"
    by (elim exE conjE)
  from twice one have p: "parse init [?raw, ?raw] = Inr s1" by simp
  from fresh have "new_query_ids s1 = {7} \<and> card (new_query_ids s1) = 1 \<and> total_words s1 = 2
      \<and> request_freq s1 ''select one'' = Some 1"
    unfolding v by (simp add: init_def)
  with p h show ?thesis by blast
qed




section \<open>Guards and fall-through\<close>

text \<open>
  C1, as stated, fails: a line that contains the connection guard, does not match the
  connection pattern, and matches the query-start pattern is processed as a query-start
  line.
\<close>

theorem guard_failure_falls_through_counterexample:
  "contains ''Incoming Conn{'' (rstrip_nl ''Incoming Conn{ On Conn{a} new Query{b} [1]: x'')
   \<and> CONNECTION (rstrip_nl ''Incoming Conn{ On Conn{a} new Query{b} [1]: x'') = None
   \<and> parse_line init ''Incoming Conn{ On Conn{a} new Query{b} [1]: x'' \<noteq> Inr init
   \<and> (\<exists>s1. parse_line init ''Incoming Conn{ On Conn{a} new Query{b} [1]: x'' = Inr s1
          \<and> new_query_ids s1 = {1} \<and> total_words s1 = 1 \<and> request_freq s1 ''x'' = Some 1)"
proof -
  let ?raw = "''Incoming Conn{ On Conn{a} new Query{b} [1]: x''"
  have g: "contains ''Incoming Conn{'' (rstrip_nl ?raw)" "CONNECTION (rstrip_nl ?raw) = None"
    by code_simp+
  have p: "case parse_line init ?raw of
             Inl e \<Rightarrow> False
           | Inr s1 \<Rightarrow> new_query_ids s1 = {1} \<and> total_words s1 = 1 \<and> request_freq s1 ''x'' = Some 1"
    by code_simp
  then obtain s1 where s1: "parse_line init ?raw = Inr s1" "new_query_ids s1 = {1}"
    "total_words s1 = 1" "request_freq s1 ''x'' = Some 1"
    by (cases "parse_line init ?raw") auto
  from s1 have "parse_line init ?raw \<noteq> Inr init" by (auto simp: init_def)
  with g s1 show ?thesis by blast
qed

text \<open>
  C1, amended: a category whose guard is present but whose pattern does not match leaves
  the state unchanged and passes the line on to the categories after it, in the order
  connection-open, query-start, query-end. After a failed connection match the line is
  processed as a query-start line if it matches that pattern, else as a query-end line if
  it contains that guard, else it is skipped; after a failed query-start match (the
  connection pattern not matching either) it is processed as a query-end line if it
  contains that guard, else skipped; after a failed query-end match it is skipped.
\<close>

theorem guard_failure_falls_through:
  "(contains ''Incoming Conn{'' (rstrip_nl raw) \<and> CONNECTION (rstrip_nl raw) = None \<longrightarrow>
      parse_line s raw =
        (if NEW_QUERY (rstrip_nl raw) \<noteq> None then
           (case parse_new_query s (rstrip_nl raw) of Inl e \<Rightarrow> Inl e | Inr (s', b) \<Rightarrow> Inr s')
         else if contains ''End Query{'' (rstrip_nl raw) then
           (case parse_end_query s (rstrip_nl raw) of Inl e \<Rightarrow> Inl e | Inr (s', b) \<Rightarrow> Inr s')
         else Inr s))
   \<and> (contains ''On Conn{'' (rstrip_nl raw) \<and> NEW_QUERY (rstrip_nl raw) = None
        \<and> CONNECTION (rstrip_nl raw) = None \<longrightarrow>
      parse_line s raw =
        (if contains ''End Query{'' (rstrip_nl raw) then
           (case parse_end_query s (rstrip_nl raw) of Inl e \<Rightarrow> Inl e | Inr (s', b) \<Rightarrow> Inr s')
         else Inr s))
   \<and> (contains ''End Query{'' (rstrip_nl raw) \<and> END (rstrip_nl raw) = None
        \<and> NEW_QUERY (rstrip_nl raw) = None \<and> CONNECTION (rstrip_nl raw) = None \<longrightarrow>
      parse_line s raw = Inr s)"
proof -
  let ?line = "rstrip_nl raw"
  have a: "parse_line s raw =
        (if NEW_QUERY ?line \<noteq> None then
           (case parse_new_query s ?line of Inl e \<Rightarrow> Inl e | Inr (s', b) \<Rightarrow> Inr s')
         else if contains ''End Query{'' ?line then
           (case parse_end_query s ?line of Inl e \<Rightarrow> Inl e | Inr (s', b) \<Rightarrow> Inr s')
         else Inr s)"
    if c: "CONNECTION ?line = None"
  proof (cases "NEW_QUERY ?line")
    case None
    then show ?thesis
      by (simp add: parse_line_not_connection[OF c] parse_new_query_None)
  next
    case (Some m)
    then have "contains ''On Conn{'' ?line" by (simp add: NEW_QUERY_guard)
    then show ?thesis
      using Some
      by (simp add: parse_line_not_connection[OF c] parse_new_query_eq split: sum.splits)
  qed
  have b: "parse_line s raw =
        (if contains ''End Query{'' ?line then
           (case parse_end_query s ?line of Inl e \<Rightarrow> Inl e | Inr (s', b) \<Rightarrow> Inr s')
         else Inr s)"
    if "CONNECTION ?line = None" "NEW_QUERY ?line = None"
    using a[OF that(1)] that(2) by simp
  have c: "parse_line s raw = Inr s"
    if "CONNECTION ?line = None" "NEW_QUERY ?line = None" "END ?line = None"
    using that by (rule parse_line_unmatched)
  from a b c show ?thesis by blast
qed

theorem guard_failure_falls_through_witness:
  "contains ''Incoming Conn{'' (rstrip_nl ''Incoming Conn{ On Conn{a} new Query{b} [1]: x'')
   \<and> CONNECTION (rstrip_nl ''Incoming Conn{ On Conn{a} new Query{b} [1]: x'') = None
   \<and> parse_line init ''Incoming Conn{ On Conn{a} new Query{b} [1]: x''
       = (case parse_new_query init (rstrip_nl ''Incoming Conn{ On Conn{a} new Query{b} [1]: x'') of
            Inl e \<Rightarrow> Inl e | Inr (s', b) \<Rightarrow> Inr s')
   \<and> contains ''On Conn{'' (rstrip_nl ''On Conn{ End Query{a} [1], ok, spent { 1 : 0 queue, 1 work } ms, 5 bytes'')
   \<and> NEW_QUERY (rstrip_nl ''On Conn{ End Query{a} [1], ok, spent { 1 : 0 queue, 1 work } ms, 5 bytes'') = None
   \<and> parse_line init ''On Conn{ End Query{a} [1], ok, spent { 1 : 0 queue, 1 work } ms, 5 bytes''
       = (case parse_end_query init
                 (rstrip_nl ''On Conn{ End Query{a} [1], ok, spent { 1 : 0 queue, 1 work } ms, 5 bytes'') of
            Inl e \<Rightarrow> Inl e | Inr (s', b) \<Rightarrow> Inr s')
   \<and> contains ''End Query{'' (rstrip_nl ''End Query{a} [1], truncated'')
   \<and> END (rstrip_nl ''End Query{a} [1], truncated'') = None
   \<and> parse_line init ''End Query{a} [1], truncated'' = Inr init"
proof -
  let ?r1 = "''Incoming Conn{ On Conn{a} new Query{b} [1]: x''"
  let ?r2 = "''On Conn{ End Query{a} [1], ok, spent { 1 : 0 queue, 1 work } ms, 5 bytes''"
  let ?r3 = "''End Query{a} [1], truncated''"
  have g1: "contains ''Incoming Conn{'' (rstrip_nl ?r1)" "CONNECTION (rstrip_nl ?r1) = None"
    "NEW_QUERY (rstrip_nl ?r1) \<noteq> None"
    by code_simp+
  have g2: "contains ''On Conn{'' (rstrip_nl ?r2)" "NEW_QUERY (rstrip_nl ?r2) = None"
    "CONNECTION (rstrip_nl ?r2) = None" "contains ''End Query{'' (rstrip_nl ?r2)"
    by code_simp+
  have g3: "contains ''End Query{'' (rstrip_nl ?r3)" "END (rstrip_nl ?r3) = None"
    "NEW_QUERY (rstrip_nl ?r3) = None" "CONNECTION (rstrip_nl ?r3) = None"
    by code_simp+
  from guard_failure_falls_through[of ?r1 init] g1
  have "parse_line init ?r1 =
          (case parse_new_query init (rstrip_nl ?r1) of Inl e \<Rightarrow> Inl e | Inr (s', b) \<Rightarrow> Inr s')"
    by simp
  moreover from guard_failure_falls_through[of ?r2 init] g2
  have "parse_line init ?r2 =
          (case parse_end_query init (rstrip_nl ?r2) of Inl e \<Rightarrow> Inl e | Inr (s', b) \<Rightarrow> Inr s')"
    by simp
  moreover from guard_failure_falls_through[of ?r3 init] g3
  have "parse_line init ?r3 = Inr init" by simp
  ultimately show ?thesis using g1 g2 g3 by simp
qed

section \<open>Lines that match a pattern and do not parse\<close>

text \<open>
  C2 fails on the code: a query-end line whose millisecond field matches \<open>[\d.]+\<close> and
  is not a decimal number, and a query-end line whose bracketed timestamp matches the
  timestamp pattern and is not a date, raise \<open>ValueError\<close>, which ends the parse. A line
  whose guard is present and whose pattern does not match is skipped.
\<close>

theorem end_line_raises:
  "parse_line init ''End Query{a} [1], ok, spent { 1.2.3 : 0 queue, 0 work } ms, 5 bytes''
     = Inl ValueError
   \<and> parse_line init
       ''[31.02.24 10:00:00] End Query{a} [1], ok, spent { 1.5 : 0 queue, 1.5 work } ms, 5 bytes''
     = Inl ValueError
   \<and> parse init
       [''End Query{a} [1], ok, spent { 1.2.3 : 0 queue, 0 work } ms, 5 bytes'',
        ''On Conn{a1} new Query{b2} [7]: select one'']
     = Inl ValueError"
proof -
  let ?r1 = "''End Query{a} [1], ok, spent { 1.2.3 : 0 queue, 0 work } ms, 5 bytes''"
  let ?r2 = "''[31.02.24 10:00:00] End Query{a} [1], ok, spent { 1.5 : 0 queue, 1.5 work } ms, 5 bytes''"
  have e: "Inl e = (Inl ValueError :: error + parser)" for e
    by (cases e) simp
  have "case parse_line init ?r1 of Inl e \<Rightarrow> True | Inr s \<Rightarrow> False"
    by code_simp
  then have r1: "parse_line init ?r1 = Inl ValueError"
    using e by (cases "parse_line init ?r1") simp_all
  have "case parse_line init ?r2 of Inl e \<Rightarrow> True | Inr s \<Rightarrow> False"
    by code_simp
  then have r2: "parse_line init ?r2 = Inl ValueError"
    using e by (cases "parse_line init ?r2") simp_all
  from r1 r2 show ?thesis by simp
qed

lemma query_start_id_over_limit:
  assumes "as_new_query (rstrip_nl raw) = Some m" "int_max_str_digits < length (n_query_id m)"
  shows "parse_line s raw = Inl ValueError"
  using assms(2) by (simp add: parse_line_start_eq[OF assms(1)] py_int_def)

lemma query_end_id_over_limit:
  assumes "as_end_query (rstrip_nl raw) = Some m" "int_max_str_digits < length (e_query_id m)"
  shows "parse_line s raw = Inl ValueError"
  using assms(2) by (simp add: parse_line_end_eq[OF assms(1)] py_int_def)

section \<open>Query-start lines with no request text\<close>

text \<open>
  C8, as stated, fails: a query-start line with no character after the colon and space
  does not match the query-start pattern, whose text group is \<open>.+\<close>, and the query is
  not marked started.
\<close>

theorem empty_text_start_counterexample:
  "NEW_QUERY (rstrip_nl ''On Conn{a} new Query{b} [1]: '') = None
   \<and> (\<exists>s1. parse_line init ''On Conn{a} new Query{b} [1]: '' = Inr s1
          \<and> new_query_ids s1 = {} \<and> card (new_query_ids s1) = 0)"
proof -
  let ?raw = "''On Conn{a} new Query{b} [1]: ''"
  have n: "NEW_QUERY (rstrip_nl ?raw) = None"
    by code_simp
  have "case parse_line init ?raw of Inl e \<Rightarrow> False | Inr s1 \<Rightarrow> new_query_ids s1 = {}"
    by code_simp
  then obtain s1 where "parse_line init ?raw = Inr s1" "new_query_ids s1 = {}"
    by (cases "parse_line init ?raw") auto
  with n show ?thesis by auto
qed

text \<open>
  C8, amended: the text field of a matching query-start line has at least one character.
  When it consists of whitespace only, so that the stripped text is empty, and the numeric
  id converts to an \<open>int\<close> not started before, the query is marked started and counts as
  one more started query, while the frequency table and the word total stay as they are.
\<close>

theorem empty_text_start:
  assumes "as_new_query (rstrip_nl raw) = Some m"
  shows "n_text_decoded m \<noteq> []
       \<and> (strip (n_text_decoded m) = [] \<and> py_int (n_query_id m) = Inr q
            \<and> q \<notin> new_query_ids s \<longrightarrow>
            (\<exists>s1. parse_line s raw = Inr s1
               \<and> new_query_ids s1 = insert q (new_query_ids s)
               \<and> (finite (new_query_ids s) \<longrightarrow>
                    card (new_query_ids s1) = card (new_query_ids s) + 1)
               \<and> request_freq s1 = request_freq s
               \<and> total_words s1 = total_words s))"
proof -
  from assms have "NEW_QUERY (rstrip_nl raw) = Some m"
    by (simp add: as_new_query_iff)
  then have "n_text_decoded m \<noteq> []"
    by (rule NEW_QUERY_text_nonempty)
  moreover have "\<exists>s1. parse_line s raw = Inr s1
               \<and> new_query_ids s1 = insert q (new_query_ids s)
               \<and> (finite (new_query_ids s) \<longrightarrow>
                    card (new_query_ids s1) = card (new_query_ids s) + 1)
               \<and> request_freq s1 = request_freq s
               \<and> total_words s1 = total_words s"
    if "strip (n_text_decoded m) = []" "py_int (n_query_id m) = Inr q" "q \<notin> new_query_ids s"
    using parse_line_start_eq[OF assms, of s] that by (simp add: record_start_def)
  ultimately show ?thesis by blast
qed

theorem empty_text_start_witness:
  "as_new_query (rstrip_nl ''On Conn{a} new Query{b} [1]:   '')
     = Some (NewQueryMatch ''a'' ''b'' ''1'' ''  '')
   \<and> (\<exists>s1. parse_line init ''On Conn{a} new Query{b} [1]:   '' = Inr s1
          \<and> new_query_ids s1 = {1} \<and> card (new_query_ids s1) = 1
          \<and> request_freq s1 = Map.empty \<and> total_words s1 = 0)"
proof -
  let ?raw = "''On Conn{a} new Query{b} [1]:   ''"
  let ?m = "NewQueryMatch ''a'' ''b'' ''1'' ''  ''"
  have h: "as_new_query (rstrip_nl ?raw) = Some ?m"
    by code_simp
  have v: "strip (n_text_decoded ?m) = []" "py_int (n_query_id ?m) = Inr 1"
    by code_simp+
  from empty_text_start[OF h, of 1 init] v
  have "\<exists>s1. parse_line init ?raw = Inr s1
          \<and> new_query_ids s1 = insert 1 (new_query_ids init)
          \<and> (finite (new_query_ids init) \<longrightarrow> card (new_query_ids s1) = card (new_query_ids init) + 1)
          \<and> request_freq s1 = request_freq init \<and> total_words s1 = total_words init"
    by (simp add: init_def)
  then have "\<exists>s1. parse_line init ?raw = Inr s1
          \<and> new_query_ids s1 = {1} \<and> card (new_query_ids s1) = 1
          \<and> request_freq s1 = Map.empty \<and> total_words s1 = 0"
    by (simp add: init_def)
  with h show ?thesis by blast
qed

section \<open>Connection-open lines\<close>

lemma split_on_Cons:
  "split_on sep (c # cs) =
     (if c = sep then [] # split_on sep cs
      else (c # hd (split_on sep cs)) # tl (split_on sep cs))"
  by (simp add: split_on_def)

lemma split_on_nonempty: "split_on sep s \<noteq> []"
  by (induction s) (simp_all add: split_on_Cons, simp add: split_on_def)

lemma split_on_covers:
  "c \<in> set s \<Longrightarrow> c \<noteq> sep \<Longrightarrow> \<exists>g \<in> set (split_on sep s). c \<in> set g"
proof (induction s)
  case Nil
  then show ?case by simp
next
  case (Cons x xs)
  obtain g gs where sp: "split_on sep xs = g # gs"
    using split_on_nonempty[of sep xs] by (cases "split_on sep xs") auto
  show ?case
  proof (cases "c = x")
    case True
    with Cons.prems sp show ?thesis by (simp add: split_on_Cons)
  next
    case False
    with Cons.prems have "c \<in> set xs" by simp
    then obtain h where h: "h \<in> set (g # gs)" "c \<in> set h"
      using Cons.IH Cons.prems(2) sp by auto
    then show ?thesis
      using sp by (auto simp: split_on_Cons)
  qed
qed

lemma digits_no_slash:
  assumes "list_all (\<lambda>g. list_all is_digit g) (split_on (CHR ''.'') s)"
  shows "CHR ''/'' \<notin> set s"
proof
  assume "CHR ''/'' \<in> set s"
  then obtain g where "g \<in> set (split_on (CHR ''.'') s)" "CHR ''/'' \<in> set g"
    using split_on_covers[of "CHR ''/''" s "CHR ''.''"] by auto
  with assms have "is_digit (CHR ''/'')"
    by (auto simp: list_all_iff)
  then show False by (simp add: is_digit_def)
qed

lemma is_valid_ipv4_strict: "is_valid_ipv4 s = is_strict_quad s"
proof
  assume "is_valid_ipv4 s"
  then show "is_strict_quad s"
    by (auto simp: is_valid_ipv4_def is_strict_quad_def parse_octet_ok_def list_all_iff)
next
  assume q: "is_strict_quad s"
  then have "list_all (\<lambda>g. list_all is_digit g) (split_on (CHR ''.'') s)"
    by (auto simp: is_strict_quad_def list_all_iff)
  then have "CHR ''/'' \<notin> set s" by (rule digits_no_slash)
  moreover have "s \<noteq> []"
    using q by (auto simp: is_strict_quad_def split_on_def)
  ultimately show "is_valid_ipv4 s"
    using q by (auto simp: is_valid_ipv4_def is_strict_quad_def parse_octet_ok_def list_all_iff)
qed

lemma extract_ip_candidate:
  "extract_ip raw = (if is_strict_quad (candidate raw) then Some (candidate raw) else None)"
  by (simp add: extract_ip_def candidate_def is_valid_ipv4_strict Let_def)

lemma is_strict_quad_nonempty: "is_strict_quad s \<Longrightarrow> s \<noteq> []"
  by (auto simp: is_strict_quad_def split_on_def)


text \<open>
  C3, as stated, fails: a candidate with a leading zero, or with more than three digits in
  a group, is made of four dot-separated decimal groups in [0,255], and the validation
  rejects it; the line's whole token goes to the invalid-address set.
\<close>

theorem connection_registration_counterexample:
  "is_dotted_quad (candidate ''01.2.3.4:80'') \<and> \<not> is_valid_ipv4 (candidate ''01.2.3.4:80'')
   \<and> is_dotted_quad (candidate ''0001.2.3.4'') \<and> \<not> is_valid_ipv4 (candidate ''0001.2.3.4'')
   \<and> (\<exists>s1. parse_line init ''Incoming Conn{a1} on 01.2.3.4:80 accepted, 1 of 20'' = Inr s1
          \<and> all_ips s1 = {} \<and> invalid_ips s1 = {''01.2.3.4:80''}
          \<and> connections s1 ''a1'' = Some ''01.2.3.4:80'')"
proof -
  let ?raw = "''Incoming Conn{a1} on 01.2.3.4:80 accepted, 1 of 20''"
  have a: "is_dotted_quad (candidate ''01.2.3.4:80'')" "\<not> is_valid_ipv4 (candidate ''01.2.3.4:80'')"
    "is_dotted_quad (candidate ''0001.2.3.4'')" "\<not> is_valid_ipv4 (candidate ''0001.2.3.4'')"
    by code_simp+
  have "case parse_line init ?raw of
          Inl e \<Rightarrow> False
        | Inr s1 \<Rightarrow> all_ips s1 = {} \<and> invalid_ips s1 = {''01.2.3.4:80''}
                    \<and> connections s1 ''a1'' = Some ''01.2.3.4:80''"
    by code_simp
  then obtain s1 where "parse_line init ?raw = Inr s1" "all_ips s1 = {}"
    "invalid_ips s1 = {''01.2.3.4:80''}" "connections s1 ''a1'' = Some ''01.2.3.4:80''"
    by (cases "parse_line init ?raw") auto
  with a show ?thesis by blast
qed

text \<open>
  C3, amended: for a connection-open line, the candidate is the token up to its first
  colon, or the whole token when it has no colon, and only the candidate is validated.
  Validation succeeds iff the candidate is exactly four dot-separated groups of one to
  three decimal digits, each in [0,255] and without a leading zero unless it is \<open>0\<close>.
  On success the candidate is added to the valid-address set and becomes the connection's
  mapping; on failure the whole raw token is added to the invalid-address set and becomes
  the connection's mapping.
\<close>

theorem connection_registration:
  assumes "CONNECTION (rstrip_nl raw) = Some m"
  shows "candidate (c_raw_ip_port m) =
           (if CHR '':'' \<in> set (c_raw_ip_port m)
            then takeWhile (\<lambda>c. c \<noteq> CHR '':'') (c_raw_ip_port m) else c_raw_ip_port m)
       \<and> is_valid_ipv4 (candidate (c_raw_ip_port m)) = is_strict_quad (candidate (c_raw_ip_port m))
       \<and> extract_ip (c_raw_ip_port m) =
           (if is_strict_quad (candidate (c_raw_ip_port m))
            then Some (candidate (c_raw_ip_port m)) else None)
       \<and> (is_strict_quad (candidate (c_raw_ip_port m)) \<longrightarrow>
            parse_line s raw =
              Inr (s\<lparr>all_ips := insert (candidate (c_raw_ip_port m)) (all_ips s),
                     connections := (connections s)(c_conn_hex_id m \<mapsto> candidate (c_raw_ip_port m))\<rparr>))
       \<and> (\<not> is_strict_quad (candidate (c_raw_ip_port m)) \<longrightarrow>
            parse_line s raw =
              Inr (s\<lparr>invalid_ips := insert (c_raw_ip_port m) (invalid_ips s),
                     connections := (connections s)(c_conn_hex_id m \<mapsto> c_raw_ip_port m)\<rparr>))"
proof -
  have line: "parse_line s raw = Inr (fst (parse_connection s (rstrip_nl raw)))"
    using assms by (simp add: parse_line_connection)
  have ok: "fst (parse_connection s (rstrip_nl raw)) =
              s\<lparr>all_ips := insert (candidate (c_raw_ip_port m)) (all_ips s),
                connections := (connections s)(c_conn_hex_id m \<mapsto> candidate (c_raw_ip_port m))\<rparr>"
    if "is_strict_quad (candidate (c_raw_ip_port m))"
    using that is_strict_quad_nonempty[OF that]
    by (simp add: parse_connection_def assms extract_ip_candidate Let_def)
  have bad: "fst (parse_connection s (rstrip_nl raw)) =
              s\<lparr>invalid_ips := insert (c_raw_ip_port m) (invalid_ips s),
                connections := (connections s)(c_conn_hex_id m \<mapsto> c_raw_ip_port m)\<rparr>"
    if "\<not> is_strict_quad (candidate (c_raw_ip_port m))"
    using that by (simp add: parse_connection_def assms extract_ip_candidate Let_def)
  show ?thesis
    using line ok bad
    by (simp add: candidate_def[of "c_raw_ip_port m"] is_valid_ipv4_strict extract_ip_candidate)
qed

theorem connection_registration_witness:
  "CONNECTION (rstrip_nl ''Incoming Conn{a1} on 1.2.3.4:80 accepted, 1 of 20'')
     = Some (ConnMatch ''a1'' ''1.2.3.4:80'' ''1'' ''20'')
   \<and> is_strict_quad (candidate ''1.2.3.4:80'')
   \<and> (\<exists>s1. parse_line init ''Incoming Conn{a1} on 1.2.3.4:80 accepted, 1 of 20'' = Inr s1
          \<and> all_ips s1 = {''1.2.3.4''} \<and> invalid_ips s1 = {}
          \<and> connections s1 ''a1'' = Some ''1.2.3.4'')
   \<and> CONNECTION (rstrip_nl ''Incoming Conn{b2} on 999.1.1.1:80 accepted, 2 of 20'')
     = Some (ConnMatch ''b2'' ''999.1.1.1:80'' ''2'' ''20'')
   \<and> \<not> is_strict_quad (candidate ''999.1.1.1:80'')
   \<and> (\<exists>s2. parse_line init ''Incoming Conn{b2} on 999.1.1.1:80 accepted, 2 of 20'' = Inr s2
          \<and> all_ips s2 = {} \<and> invalid_ips s2 = {''999.1.1.1:80''}
          \<and> connections s2 ''b2'' = Some ''999.1.1.1:80'')"
proof -
  let ?r1 = "''Incoming Conn{a1} on 1.2.3.4:80 accepted, 1 of 20''"
  let ?m1 = "ConnMatch ''a1'' ''1.2.3.4:80'' ''1'' ''20''"
  let ?r2 = "''Incoming Conn{b2} on 999.1.1.1:80 accepted, 2 of 20''"
  let ?m2 = "ConnMatch ''b2'' ''999.1.1.1:80'' ''2'' ''20''"
  have h1: "CONNECTION (rstrip_nl ?r1) = Some ?m1" and h2: "CONNECTION (rstrip_nl ?r2) = Some ?m2"
    by code_simp+
  have v: "is_strict_quad (candidate ''1.2.3.4:80'')" "candidate ''1.2.3.4:80'' = ''1.2.3.4''"
    "\<not> is_strict_quad (candidate ''999.1.1.1:80'')"
    by code_simp+
  from connection_registration[OF h1, of init] v
  have "parse_line init ?r1 =
          Inr (init\<lparr>all_ips := insert ''1.2.3.4'' (all_ips init),
                     connections := (connections init)(''a1'' \<mapsto> ''1.2.3.4'')\<rparr>)"
    by simp
  then have a: "\<exists>s1. parse_line init ?r1 = Inr s1
          \<and> all_ips s1 = {''1.2.3.4''} \<and> invalid_ips s1 = {}
          \<and> connections s1 ''a1'' = Some ''1.2.3.4''"
    by (simp add: init_def)
  from connection_registration[OF h2, of init] v
  have "parse_line init ?r2 =
          Inr (init\<lparr>invalid_ips := insert ''999.1.1.1:80'' (invalid_ips init),
                     connections := (connections init)(''b2'' \<mapsto> ''999.1.1.1:80'')\<rparr>)"
    by simp
  then have b: "\<exists>s2. parse_line init ?r2 = Inr s2
          \<and> all_ips s2 = {} \<and> invalid_ips s2 = {''999.1.1.1:80''}
          \<and> connections s2 ''b2'' = Some ''999.1.1.1:80''"
    by (simp add: init_def)
  from h1 h2 v a b show ?thesis by simp
qed

section \<open>The timestamp bounds\<close>

lemma parse_line_timestamps:
  assumes line: "parse_line s raw = Inr s'"
    and fin: "finite T"
    and first: "first_end_time s = (if T = {} then None else Some (Min T))"
    and last: "last_end_time s = (if T = {} then None else Some (Max T))"
  shows "first_end_time s' =
           (if T \<union> set (end_timestamps s [raw]) = {} then None
            else Some (Min (T \<union> set (end_timestamps s [raw]))))
       \<and> last_end_time s' =
           (if T \<union> set (end_timestamps s [raw]) = {} then None
            else Some (Max (T \<union> set (end_timestamps s [raw]))))"
proof (cases "as_end_query (rstrip_nl raw)")
  case None
  then have "first_seen_end s raw = False" by (simp add: first_seen_end_def)
  then have "end_timestamps s [raw] = []" using line by simp
  then show ?thesis
    using parse_line_not_end[OF None line] first last by simp
next
  case (Some m)
  note eq = parse_line_end_eq[OF Some, of s]
  from eq line obtain q where q: "py_int (e_query_id m) = Inr q"
    by (cases "py_int (e_query_id m)") simp_all
  show ?thesis
  proof (cases "q \<in> finished_query_ids s")
    case True
    then have "first_seen_end s raw = False" by (simp add: first_seen_end_def Some q)
    then have "end_timestamps s [raw] = []" using line by simp
    moreover from eq line q True have "s' = s" by simp
    ultimately show ?thesis using first last by simp
  next
    case False
    then have seen: "first_seen_end s raw" by (simp add: first_seen_end_def Some q)
    from eq line q False obtain t w ts where ts: "extract_internal_timestamp (rstrip_nl raw) = Inr ts"
      and s': "s' = record_end s q t w ts"
      by (auto split: sum.splits)
    show ?thesis
    proof (cases ts)
      case None
      then have "end_timestamps s [raw] = []" using line seen ts by simp
      then show ?thesis using first last s' None by (simp add: record_end_def)
    next
      case (Some x)
      then have e: "end_timestamps s [raw] = [x]" using line seen ts by simp
      show ?thesis
      proof (cases "T = {}")
        case True
        then show ?thesis using first last s' Some e by (simp add: record_end_def)
      next
        case False
        then have "Min (insert x T) = min x (Min T)" "Max (insert x T) = max x (Max T)"
          using fin by (simp_all add: Min_insert Max_insert)
        then show ?thesis
          using first last s' Some e False
          by (auto simp: record_end_def min_def max_def)
      qed
    qed
  qed
qed

lemma parse_timestamps:
  assumes "parse s lines = Inr s'" "finite T"
    "first_end_time s = (if T = {} then None else Some (Min T))"
    "last_end_time s = (if T = {} then None else Some (Max T))"
  shows "first_end_time s' =
           (if T \<union> set (end_timestamps s lines) = {} then None
            else Some (Min (T \<union> set (end_timestamps s lines))))
       \<and> last_end_time s' =
           (if T \<union> set (end_timestamps s lines) = {} then None
            else Some (Max (T \<union> set (end_timestamps s lines))))"
  using assms
proof (induction lines arbitrary: s T)
  case Nil
  then show ?case by simp
next
  case (Cons raw lines)
  from Cons.prems(1) obtain s1 where s1: "parse_line s raw = Inr s1" "parse s1 lines = Inr s'"
    by (auto split: sum.splits)
  let ?T1 = "T \<union> set (end_timestamps s [raw])"
  have b1: "first_end_time s1 = (if ?T1 = {} then None else Some (Min ?T1))
          \<and> last_end_time s1 = (if ?T1 = {} then None else Some (Max ?T1))"
    using parse_line_timestamps[OF s1(1) Cons.prems(2) Cons.prems(3) Cons.prems(4)] by blast
  have f1: "finite ?T1" by (rule finite_UnI[OF Cons.prems(2) finite_set])
  have u: "?T1 \<union> set (end_timestamps s1 lines) = T \<union> set (end_timestamps s (raw # lines))"
    by (simp only: end_timestamps.simps s1(1) sum.case append_Nil2 set_append Un_assoc)
  from Cons.IH[OF s1(2) f1 conjunct1[OF b1] conjunct2[OF b1]]
  show ?case unfolding u .
qed

text \<open>
  C9: after any lines processed without error, the first and the last end timestamp are
  both unset or both set; when set, the first is not after the last; and they are the
  earliest and the latest of the timestamps extracted from the first-seen query-end lines
  processed so far.
\<close>

theorem end_time_bounds:
  assumes "parse init lines = Inr s"
  shows "(first_end_time s = None \<longleftrightarrow> last_end_time s = None)
       \<and> (\<forall>f l. first_end_time s = Some f \<and> last_end_time s = Some l \<longrightarrow> f \<le> l)
       \<and> first_end_time s =
           (if end_timestamps init lines = [] then None
            else Some (Min (set (end_timestamps init lines))))
       \<and> last_end_time s =
           (if end_timestamps init lines = [] then None
            else Some (Max (set (end_timestamps init lines))))"
proof -
  have i: "first_end_time init = (if ({} :: datetime set) = {} then None else Some (Min {}))"
    "last_end_time init = (if ({} :: datetime set) = {} then None else Some (Max {}))"
    by (simp_all add: init_def)
  from parse_timestamps[OF assms _ i]
  have b: "first_end_time s =
           (if end_timestamps init lines = [] then None
            else Some (Min (set (end_timestamps init lines))))"
    "last_end_time s =
           (if end_timestamps init lines = [] then None
            else Some (Max (set (end_timestamps init lines))))"
    by simp_all
  have "f \<le> l" if "first_end_time s = Some f" "last_end_time s = Some l" for f l
  proof -
    from that b have ne: "set (end_timestamps init lines) \<noteq> {}"
      and "f = Min (set (end_timestamps init lines))" "l = Max (set (end_timestamps init lines))"
      by (auto split: if_splits)
    moreover from ne have "\<exists>x. x \<in> set (end_timestamps init lines)"
      by (metis ex_in_conv)
    then obtain x where x: "x \<in> set (end_timestamps init lines)" ..
    then have "Min (set (end_timestamps init lines)) \<le> x" "x \<le> Max (set (end_timestamps init lines))"
      by simp_all
    ultimately show ?thesis by simp
  qed
  with b show ?thesis by auto
qed


theorem end_time_bounds_witness:
  "\<exists>s. parse init
          [''[01.02.24 10:00:10] End Query{a} [1], ok, spent { 1 : 0 queue, 1 work } ms, 5 bytes'',
           ''[01.02.24 10:00:00] End Query{b} [2], ok, spent { 1 : 0 queue, 1 work } ms, 5 bytes'',
           ''[01.02.24 09:00:00] End Query{b} [2], ok, spent { 1 : 0 queue, 1 work } ms, 5 bytes'']
        = Inr s
      \<and> first_end_time s = Some (2024, 2, 1, 10, 0, 0)
      \<and> last_end_time s = Some (2024, 2, 1, 10, 0, 10)"
proof -
  let ?lines =
    "[''[01.02.24 10:00:10] End Query{a} [1], ok, spent { 1 : 0 queue, 1 work } ms, 5 bytes'',
      ''[01.02.24 10:00:00] End Query{b} [2], ok, spent { 1 : 0 queue, 1 work } ms, 5 bytes'',
      ''[01.02.24 09:00:00] End Query{b} [2], ok, spent { 1 : 0 queue, 1 work } ms, 5 bytes'']"
  have "case parse init ?lines of Inl e \<Rightarrow> False | Inr s \<Rightarrow> True"
    by code_simp
  then obtain s where s: "parse init ?lines = Inr s"
    by (cases "parse init ?lines") auto
  have ts: "end_timestamps init ?lines = [(2024, 2, 1, 10, 0, 10), (2024, 2, 1, 10, 0, 0)]"
    by code_simp
  have m: "Min (set [(2024, 2, 1, 10, 0, 10), (2024, 2, 1, 10, 0, 0) :: datetime]) = (2024, 2, 1, 10, 0, 0)"
    "Max (set [(2024, 2, 1, 10, 0, 10), (2024, 2, 1, 10, 0, 0) :: datetime]) = (2024, 2, 1, 10, 0, 10)"
    by code_simp+
  from end_time_bounds[OF s]
  have "first_end_time s = Some (2024, 2, 1, 10, 0, 0) \<and> last_end_time s = Some (2024, 2, 1, 10, 0, 10)"
    unfolding ts m by simp
  with s show ?thesis by blast
qed

section \<open>Maxima and sums\<close>

lemma pow2_split:
  fixes e1 e :: int
  assumes "e \<le> e1"
  shows "(2::rat) powi e1 = 2 ^ nat (e1 - e) * 2 powi e"
proof -
  have "(2::rat) powi e1 = 2 powi ((e1 - e) + e)" by simp
  also have "\<dots> = 2 powi (e1 - e) * 2 powi e"
    by (rule power_int_add) simp
  also have "2 powi (e1 - e) = (2::rat) ^ nat (e1 - e)"
    using assms by (simp add: power_int_def)
  finally show ?thesis .
qed

lemma fless_Fin:
  "fless (Fin m1 e1) (Fin m2 e2) = (fval (Fin m1 e1) < fval (Fin m2 e2))"
proof -
  let ?e = "min e1 e2"
  have p: "(0::rat) < 2 powi ?e" by simp
  have a: "fval (Fin m1 e1) = of_int (m1 * 2 ^ nat (e1 - ?e)) * 2 powi ?e"
    using pow2_split[of ?e e1] by (simp add: fval_def)
  have b: "fval (Fin m2 e2) = of_int (m2 * 2 ^ nat (e2 - ?e)) * 2 powi ?e"
    using pow2_split[of ?e e2] by (simp add: fval_def)
  have "(fval (Fin m1 e1) < fval (Fin m2 e2))
      = ((of_int (m1 * 2 ^ nat (e1 - ?e)) :: rat) < of_int (m2 * 2 ^ nat (e2 - ?e)))"
    unfolding a b using p by (rule mult_less_cancel_right_pos)
  also have "\<dots> = (m1 * 2 ^ nat (e1 - ?e) < m2 * 2 ^ nat (e2 - ?e))"
    by (rule of_int_less_iff)
  finally show ?thesis by (simp add: Let_def)
qed

lemma fless_asym: "fless a b \<Longrightarrow> \<not> fless b a"
  by (cases a; cases b) (simp_all add: fless_Fin del: fless.simps(1))

lemma fless_irrefl: "\<not> fless a a"
  using fless_asym[of a a] by blast

lemma fle_refl: "a \<noteq> NaN \<Longrightarrow> fle a a"
  by (simp add: fle_def fless_irrefl)

lemma fle_trans: "fle a b \<Longrightarrow> fle b c \<Longrightarrow> fle a c"
  by (cases a; cases b; cases c) (auto simp: fle_def fless_Fin simp del: fless.simps(1))

lemma fle_zero: "fle fzero a = (case a of Fin m e \<Rightarrow> 0 \<le> m | PosInf \<Rightarrow> True | NaN \<Rightarrow> False)"
  by (cases a) (simp_all add: fle_def fzero_def Let_def not_less zero_le_mult_iff)

lemma round_half_even_nonneg:
  assumes "0 \<le> num" "0 < den"
  shows "0 \<le> round_half_even num den"
proof -
  from assms have "0 \<le> num div den" by (simp add: pos_imp_zdiv_nonneg_iff)
  then show ?thesis by (simp add: round_half_even_def Let_def)
qed

lemma fround_result_nonneg:
  "0 \<le> m \<Longrightarrow>
     fle fzero (if m = 2 ^ 53 then (if 971 < e + 1 then PosInf else Fin (2 ^ 52) (e + 1))
                else if 971 < e then PosInf else Fin m e)"
  by (simp add: fle_zero)

lemma fround_nonneg:
  assumes "0 \<le> p" "0 < q"
  shows "fle fzero (fround p q k)"
proof (cases "p = 0")
  case True
  then have "fround p q k = fzero" by (simp add: fround_def)
  moreover have "fle fzero fzero" by (simp add: fle_def fzero_def)
  ultimately show ?thesis by simp
next
  case False
  define e where "e = max (floor_log2 p q k - 52) (- 1074)"
  define m where
    "m = round_half_even (if 0 \<le> k - e then p * 2 ^ nat (k - e) else p)
                         (if 0 \<le> k - e then q else q * 2 ^ nat (- (k - e)))"
  have r: "fround p q k =
             (if m = 2 ^ 53 then (if 971 < e + 1 then PosInf else Fin (2 ^ 52) (e + 1))
              else if 971 < e then PosInf else Fin m e)"
    unfolding fround_def Let_def m_def e_def using False by (simp only: if_False)
  have "0 \<le> (if 0 \<le> k - e then p * 2 ^ nat (k - e) else p)"
    using assms(1) by simp
  moreover have "0 < (if 0 \<le> k - e then q else q * 2 ^ nat (- (k - e)))"
    using assms(2) by simp
  ultimately have "0 \<le> m" unfolding m_def by (rule round_half_even_nonneg)
  then show ?thesis unfolding r by (rule fround_result_nonneg)
qed

lemma digits_value_nonneg_aux:
  "list_all is_digit s \<Longrightarrow> (0::int) \<le> n \<Longrightarrow> 0 \<le> foldl (\<lambda>n c. 10 * n + (of_char c - 48)) n s"
proof (induction s arbitrary: n)
  case Nil
  then show ?case by simp
next
  case (Cons c cs)
  from Cons.prems(1) have "is_digit c" "list_all is_digit cs" by simp_all
  then have "(48::nat) \<le> of_char c" by (simp add: is_digit_def Let_def)
  then have "int 48 \<le> int (of_char c)" by (simp only: of_nat_le_iff)
  then have "(48::int) \<le> of_char c" by (simp add: of_nat_of_char)
  with Cons.prems(2) have "0 \<le> 10 * n + (of_char c - 48)" by simp
  from Cons.IH[OF \<open>list_all is_digit cs\<close> this] show ?case by simp
qed

lemma digits_value_nonneg: "list_all is_digit s \<Longrightarrow> 0 \<le> digits_value s"
  unfolding digits_value_def by (rule digits_value_nonneg_aux) simp_all

lemma py_float_nonneg:
  assumes "py_float s = Inr x"
  shows "fle fzero x"
proof -
  let ?ip = "takeWhile is_digit s"
  let ?fp = "drop 1 (dropWhile is_digit s)"
  from assms have fp: "list_all is_digit ?fp" and x: "x = fround (digits_value (?ip @ ?fp)) (10 ^ length ?fp) 0"
    by (auto simp: py_float_def Let_def split: if_splits)
  have "list_all is_digit ?ip"
    by (simp add: list_all_iff) (meson set_takeWhileD)
  with fp have "list_all is_digit (?ip @ ?fp)" by simp
  then have "0 \<le> digits_value (?ip @ ?fp)" by (rule digits_value_nonneg)
  then show ?thesis unfolding x by (rule fround_nonneg) simp
qed

lemma fadd_nonneg:
  assumes "fle fzero a" "fle fzero b"
  shows "fle fzero (fadd a b)"
proof (cases a)
  case (Fin m1 e1)
  note a = this
  show ?thesis
  proof (cases b)
    case (Fin m2 e2)
    from assms a Fin have "0 \<le> m1" "0 \<le> m2" by (simp_all add: fle_zero)
    then have "0 \<le> m1 * 2 ^ nat (e1 - min e1 e2) + m2 * 2 ^ nat (e2 - min e1 e2)" by simp
    then show ?thesis unfolding a Fin fadd.simps Let_def by (rule fround_nonneg) simp
  next
    case PosInf
    then show ?thesis using a by (simp add: fle_zero)
  next
    case NaN
    then show ?thesis using assms by (simp add: fle_zero)
  qed
next
  case PosInf
  then show ?thesis using assms by (cases b) (simp_all add: fle_zero)
next
  case NaN
  then show ?thesis using assms by (simp add: fle_zero)
qed

lemma fle_max_update:
  assumes "fle fzero mx" "fle fzero t"
  shows "fle t (if fless mx t then t else mx) \<and> fle mx (if fless mx t then t else mx)
       \<and> fle fzero (if fless mx t then t else mx)"
proof -
  from assms have n: "mx \<noteq> NaN" "t \<noteq> NaN" by (auto simp: fle_def)
  show ?thesis
    using n assms fless_asym[of mx t] by (auto simp: fle_def fless_irrefl)
qed

section \<open>Durations\<close>

lemma parse_line_durations:
  assumes line: "parse_line s raw = Inr s'" and inv: "durations_inv s ds"
  shows "durations_inv s' (ds @ end_durations s [raw])"
proof (cases "as_end_query (rstrip_nl raw)")
  case None
  then have "first_seen_end s raw = False" by (simp add: first_seen_end_def)
  then have "end_durations s [raw] = []" using line by simp
  then show ?thesis
    using parse_line_not_end[OF None line] inv by (simp add: durations_inv_def)
next
  case (Some m)
  note eq = parse_line_end_eq[OF Some, of s]
  from eq line obtain q where q: "py_int (e_query_id m) = Inr q"
    by (cases "py_int (e_query_id m)") simp_all
  show ?thesis
  proof (cases "q \<in> finished_query_ids s")
    case True
    then have "first_seen_end s raw = False" by (simp add: first_seen_end_def Some q)
    then have "end_durations s [raw] = []" using line by simp
    moreover from eq line q True have "s' = s" by simp
    ultimately show ?thesis using inv by simp
  next
    case False
    then have seen: "first_seen_end s raw" by (simp add: first_seen_end_def Some q)
    from eq line q False obtain t w ts where t: "py_float (e_time_total_ms m) = Inr t"
      and w: "py_float (e_time_working_ms m) = Inr w"
      and s': "s' = record_end s q t w ts"
      by (auto split: sum.splits)
    have e: "end_durations s [raw] = [(w, t)]"
      using line seen Some t w by simp
    have t0: "fle fzero t" using t by (rule py_float_nonneg)
    have w0: "fle fzero w" using w by (rule py_float_nonneg)
    let ?mw = "max_handling_time_working_ms s"
    let ?mt = "max_handling_time_with_waiting_ms s"
    let ?mw' = "if fless ?mw w then w else ?mw"
    let ?mt' = "if fless ?mt t then t else ?mt"
    from inv have i: "fle fzero (total_time_working_ms s)" "fle fzero (total_time_with_waiting_ms s)"
      "fle fzero ?mw" "fle fzero ?mt"
      "\<And>d. d \<in> set ds \<Longrightarrow> fle (fst d) ?mw \<and> fle (snd d) ?mt"
      "finite (finished_query_ids s)" "card (finished_query_ids s) = length ds"
      by (simp_all add: durations_inv_def)
    note uw = fle_max_update[OF i(3) w0]
    note ut = fle_max_update[OF i(4) t0]
    have old: "fle (fst d) ?mw' \<and> fle (snd d) ?mt'" if "d \<in> set ds" for d
    proof -
      from i(5)[OF that] have "fle (fst d) ?mw" "fle (snd d) ?mt" by simp_all
      moreover from uw have "fle ?mw ?mw'" by blast
      moreover from ut have "fle ?mt ?mt'" by blast
      ultimately show ?thesis by (blast intro: fle_trans)
    qed
    have f: "total_time_working_ms s' = fadd (total_time_working_ms s) w"
      "total_time_with_waiting_ms s' = fadd (total_time_with_waiting_ms s) t"
      "max_handling_time_working_ms s' = ?mw'" "max_handling_time_with_waiting_ms s' = ?mt'"
      "finished_query_ids s' = insert q (finished_query_ids s)"
      by (simp_all add: s' record_end_def)
    have "fle fzero (total_time_working_ms s')" unfolding f by (rule fadd_nonneg[OF i(1) w0])
    moreover have "fle fzero (total_time_with_waiting_ms s')"
      unfolding f by (rule fadd_nonneg[OF i(2) t0])
    moreover have "fle fzero (max_handling_time_working_ms s')" unfolding f using uw by blast
    moreover have "fle fzero (max_handling_time_with_waiting_ms s')" unfolding f using ut by blast
    moreover have "\<forall>d \<in> set (ds @ [(w, t)]). fle (fst d) (max_handling_time_working_ms s')
                        \<and> fle (snd d) (max_handling_time_with_waiting_ms s')"
      unfolding f using old uw ut by auto
    moreover have "finite (finished_query_ids s')" unfolding f using i(6) by simp
    moreover have "card (finished_query_ids s') = length (ds @ [(w, t)])"
      unfolding f using i(6) i(7) False by simp
    ultimately show ?thesis unfolding e durations_inv_def by blast
  qed
qed

lemma parse_durations:
  assumes "parse s lines = Inr s'" "durations_inv s ds"
  shows "durations_inv s' (ds @ end_durations s lines)"
  using assms
proof (induction lines arbitrary: s ds)
  case Nil
  then show ?case by simp
next
  case (Cons raw lines)
  from Cons.prems(1) obtain s1 where s1: "parse_line s raw = Inr s1" "parse s1 lines = Inr s'"
    by (auto split: sum.splits)
  have u: "(ds @ end_durations s [raw]) @ end_durations s1 lines = ds @ end_durations s (raw # lines)"
    by (simp only: end_durations.simps s1(1) sum.case append_Nil2 append_assoc)
  from Cons.IH[OF s1(2) parse_line_durations[OF s1(1) Cons.prems(2)]]
  show ?case unfolding u .
qed

lemma durations_inv_init: "durations_inv init []"
  by (simp add: durations_inv_def init_def fle_def fzero_def)


text \<open>
  C10, as stated, fails: the averages are floating-point quotients of floating-point sums,
  and rounding can lift them above the maxima. Three finished queries of \<open>0.1\<close> ms each
  give the sum \<open>0.30000000000000004\<close> and the average \<open>0.10000000000000002\<close>, above the
  maximum \<open>0.1\<close>.
\<close>

theorem max_times_bound_counterexample:
  "\<exists>s. parse init
          [''End Query{a} [1], ok, spent { 0.1 : 0 queue, 0.1 work } ms, 5 bytes'',
           ''End Query{b} [2], ok, spent { 0.1 : 0 queue, 0.1 work } ms, 5 bytes'',
           ''End Query{c} [3], ok, spent { 0.1 : 0 queue, 0.1 work } ms, 5 bytes''] = Inr s
      \<and> card (finished_query_ids s) = 3
      \<and> max_times s = (Fin 7205759403792794 (- 56), Fin 7205759403792794 (- 56))
      \<and> average_times s = (Fin 7205759403792795 (- 56), Fin 7205759403792795 (- 56))
      \<and> fless (fst (max_times s)) (fst (average_times s))
      \<and> fless (snd (max_times s)) (snd (average_times s))
      \<and> \<not> fle (fst (average_times s)) (fst (max_times s))
      \<and> \<not> fle (snd (average_times s)) (snd (max_times s))"
proof -
  let ?lines =
    "[''End Query{a} [1], ok, spent { 0.1 : 0 queue, 0.1 work } ms, 5 bytes'',
      ''End Query{b} [2], ok, spent { 0.1 : 0 queue, 0.1 work } ms, 5 bytes'',
      ''End Query{c} [3], ok, spent { 0.1 : 0 queue, 0.1 work } ms, 5 bytes'']"
  have "case parse init ?lines of
          Inl e \<Rightarrow> False
        | Inr s \<Rightarrow> card (finished_query_ids s) = 3
            \<and> max_times s = (Fin 7205759403792794 (- 56), Fin 7205759403792794 (- 56))
            \<and> average_times s = (Fin 7205759403792795 (- 56), Fin 7205759403792795 (- 56))"
    by code_simp
  then obtain s where s: "parse init ?lines = Inr s" "card (finished_query_ids s) = 3"
    "max_times s = (Fin 7205759403792794 (- 56), Fin 7205759403792794 (- 56))"
    "average_times s = (Fin 7205759403792795 (- 56), Fin 7205759403792795 (- 56))"
    by (cases "parse init ?lines") auto
  have c: "fless (Fin 7205759403792794 (- 56)) (Fin 7205759403792795 (- 56))"
    "\<not> fle (Fin 7205759403792795 (- 56)) (Fin 7205759403792794 (- 56))"
    by (simp_all add: fle_def)
  from s c show ?thesis by (intro exI[of _ s]) simp
qed

text \<open>
  C10, amended: after any input processed without error, the sums and the maxima are
  non-negative numbers, each component of \<open>max_times\<close> (working, total) is greater than or
  equal to the corresponding duration of every first-seen query-end line, and these lines
  are as many as the finished queries; so the maxima bound the exact mean of the
  durations, which the floating-point \<open>average_times\<close> may exceed by rounding.
\<close>

theorem max_times_bound:
  assumes "parse init lines = Inr s"
  shows "fle fzero (total_time_working_ms s) \<and> fle fzero (total_time_with_waiting_ms s)
       \<and> fle fzero (fst (max_times s)) \<and> fle fzero (snd (max_times s))
       \<and> (\<forall>d \<in> set (end_durations init lines).
             fle (fst d) (fst (max_times s)) \<and> fle (snd d) (snd (max_times s)))
       \<and> card (finished_query_ids s) = length (end_durations init lines)"
proof -
  from parse_durations[OF assms durations_inv_init]
  have "durations_inv s (end_durations init lines)" by simp
  then show ?thesis by (simp add: durations_inv_def max_times_def)
qed

theorem max_times_bound_witness:
  "\<exists>s. parse init
          [''End Query{a} [1], ok, spent { 10.0 : 2.5 queue, 7.5 work } ms, 5 bytes'',
           ''End Query{b} [2], ok, spent { 30.0 : 12.5 queue, 17.5 work } ms, 5 bytes'',
           ''End Query{b} [2], ok, spent { 99 : 0 queue, 99 work } ms, 5 bytes''] = Inr s
      \<and> end_durations init
          [''End Query{a} [1], ok, spent { 10.0 : 2.5 queue, 7.5 work } ms, 5 bytes'',
           ''End Query{b} [2], ok, spent { 30.0 : 12.5 queue, 17.5 work } ms, 5 bytes'',
           ''End Query{b} [2], ok, spent { 99 : 0 queue, 99 work } ms, 5 bytes'']
          = [(Fin 8444249301319680 (- 50), Fin 5629499534213120 (- 49)),
             (Fin 4925812092436480 (- 48), Fin 8444249301319680 (- 48))]
      \<and> card (finished_query_ids s) = 2
      \<and> fle (Fin 4925812092436480 (- 48)) (fst (max_times s))
      \<and> fle (Fin 8444249301319680 (- 48)) (snd (max_times s))
      \<and> fle fzero (total_time_working_ms s) \<and> fle fzero (total_time_with_waiting_ms s)"
proof -
  let ?lines =
    "[''End Query{a} [1], ok, spent { 10.0 : 2.5 queue, 7.5 work } ms, 5 bytes'',
      ''End Query{b} [2], ok, spent { 30.0 : 12.5 queue, 17.5 work } ms, 5 bytes'',
      ''End Query{b} [2], ok, spent { 99 : 0 queue, 99 work } ms, 5 bytes'']"
  have "case parse init ?lines of Inl e \<Rightarrow> False | Inr s \<Rightarrow> True"
    by code_simp
  then obtain s where s: "parse init ?lines = Inr s"
    by (cases "parse init ?lines") auto
  have d: "end_durations init ?lines
          = [(Fin 8444249301319680 (- 50), Fin 5629499534213120 (- 49)),
             (Fin 4925812092436480 (- 48), Fin 8444249301319680 (- 48))]"
    by code_simp
  from max_times_bound[OF s]
  have "card (finished_query_ids s) = 2
      \<and> fle (Fin 4925812092436480 (- 48)) (fst (max_times s))
      \<and> fle (Fin 8444249301319680 (- 48)) (snd (max_times s))
      \<and> fle fzero (total_time_working_ms s) \<and> fle fzero (total_time_with_waiting_ms s)"
    unfolding d by simp
  with s d show ?thesis by blast
qed

section \<open>Derived metrics\<close>

lemma total_seconds_same: "total_seconds t t = 0"
  by (cases t) (simp add: total_seconds_def)

lemma parse_line_few_finished:
  assumes line: "parse_line s raw = Inr s'"
    and fin: "finite (finished_query_ids s)"
    and none: "card (finished_query_ids s) = 0 \<longrightarrow> first_end_time s = None \<and> last_end_time s = None"
    and one: "card (finished_query_ids s) \<le> 1 \<longrightarrow> first_end_time s = last_end_time s"
  shows "finite (finished_query_ids s')
       \<and> (card (finished_query_ids s') = 0 \<longrightarrow> first_end_time s' = None \<and> last_end_time s' = None)
       \<and> (card (finished_query_ids s') \<le> 1 \<longrightarrow> first_end_time s' = last_end_time s')"
proof (cases "as_end_query (rstrip_nl raw)")
  case None
  from parse_line_not_end[OF None line] fin none one show ?thesis by simp
next
  case (Some m)
  note eq = parse_line_end_eq[OF Some, of s]
  from eq line obtain q where q: "py_int (e_query_id m) = Inr q"
    by (cases "py_int (e_query_id m)") simp_all
  show ?thesis
  proof (cases "q \<in> finished_query_ids s")
    case True
    with eq line q have "s' = s" by simp
    with fin none one show ?thesis by simp
  next
    case False
    from eq line q False obtain t w ts where s': "s' = record_end s q t w ts"
      by (auto split: sum.splits)
    have f: "finished_query_ids s' = insert q (finished_query_ids s)"
      by (simp add: s' record_end_def)
    have c: "card (finished_query_ids s') = card (finished_query_ids s) + 1"
      unfolding f using fin False by simp
    have "first_end_time s' = last_end_time s'" if "card (finished_query_ids s') \<le> 1"
    proof -
      from that c have "card (finished_query_ids s) = 0" by simp
      with none have "first_end_time s = None" "last_end_time s = None" by simp_all
      then show ?thesis by (cases ts) (simp_all add: s' record_end_def)
    qed
    with c fin show ?thesis by (simp add: f)
  qed
qed

lemma parse_few_finished:
  assumes "parse s lines = Inr s'" "finite (finished_query_ids s)"
    "card (finished_query_ids s) = 0 \<longrightarrow> first_end_time s = None \<and> last_end_time s = None"
    "card (finished_query_ids s) \<le> 1 \<longrightarrow> first_end_time s = last_end_time s"
  shows "card (finished_query_ids s') \<le> 1 \<longrightarrow> first_end_time s' = last_end_time s'"
  using assms
proof (induction lines arbitrary: s)
  case Nil
  then show ?case by simp
next
  case (Cons raw lines)
  from Cons.prems(1) obtain s1 where s1: "parse_line s raw = Inr s1" "parse s1 lines = Inr s'"
    by (auto split: sum.splits)
  note j = parse_line_few_finished[OF s1(1) Cons.prems(2) Cons.prems(3) Cons.prems(4)]
  from Cons.IH[OF s1(2) conjunct1[OF j] conjunct1[OF conjunct2[OF j]] conjunct2[OF conjunct2[OF j]]]
  show ?case .
qed

lemma parse_init_one_finished:
  assumes "parse init lines = Inr s" "card (finished_query_ids s) = 1"
  shows "first_end_time s = last_end_time s"
proof -
  have "card (finished_query_ids s) \<le> 1 \<longrightarrow> first_end_time s = last_end_time s"
    by (rule parse_few_finished[OF assms(1)]) (simp_all add: init_def)
  with assms(2) show ?thesis by simp
qed

text \<open>
  C6: \<open>rps\<close> is \<open>0.0\<close> when no query finished or a timestamp bound is unset; otherwise,
  with \<open>c\<close> finished queries and a span of \<open>last - first\<close> in seconds, it is \<open>float(c)\<close>
  when the span is \<open>\<le> 0\<close>, and \<open>c / span\<close> when the span is positive. The span is 0 when
  the two bounds are the same instant, which is the case after any input with exactly one
  finished query.
\<close>

theorem rps_cases:
  "(card (finished_query_ids s) = 0 \<or> first_end_time s = None \<or> last_end_time s = None
      \<longrightarrow> rps s = fzero)
   \<and> (card (finished_query_ids s) \<noteq> 0 \<and> first_end_time s = Some f \<and> last_end_time s = Some l
      \<longrightarrow> rps s =
            (if total_seconds l f \<le> 0 then float_of_int (int (card (finished_query_ids s)))
             else fdiv (float_of_int (int (card (finished_query_ids s))))
                       (float_of_int (total_seconds l f))))
   \<and> (card (finished_query_ids s) \<noteq> 0 \<and> first_end_time s = Some t \<and> last_end_time s = Some t
      \<longrightarrow> rps s = float_of_int (int (card (finished_query_ids s))))
   \<and> (parse init lines = Inr s \<and> card (finished_query_ids s) = 1
      \<longrightarrow> rps s = (if first_end_time s = None then fzero else float_of_int 1))"
proof -
  have "rps s = (if first_end_time s = None then fzero else float_of_int 1)"
    if "parse init lines = Inr s" "card (finished_query_ids s) = 1"
  proof -
    from that have "first_end_time s = last_end_time s" by (rule parse_init_one_finished)
    then show ?thesis
      using that(2) by (auto simp: rps_def Let_def total_seconds_same)
  qed
  then show ?thesis
    by (auto simp: rps_def Let_def total_seconds_same)
qed


theorem rps_cases_witness:
  "(\<exists>s. parse init
          [''[01.02.24 10:00:00] End Query{a} [1], ok, spent { 1 : 0 queue, 1 work } ms, 5 bytes'',
           ''[01.02.24 10:00:04] End Query{b} [2], ok, spent { 1 : 0 queue, 1 work } ms, 5 bytes'']
          = Inr s
        \<and> rps s = Fin 4503599627370496 (- 53))
   \<and> (\<exists>s. parse init
          [''[01.02.24 10:00:00] End Query{a} [1], ok, spent { 1 : 0 queue, 1 work } ms, 5 bytes'']
          = Inr s
        \<and> rps s = Fin 4503599627370496 (- 52))
   \<and> rps init = fzero"
proof -
  let ?e1 = "''[01.02.24 10:00:00] End Query{a} [1], ok, spent { 1 : 0 queue, 1 work } ms, 5 bytes''"
  let ?e2 = "''[01.02.24 10:00:04] End Query{b} [2], ok, spent { 1 : 0 queue, 1 work } ms, 5 bytes''"
  have "case parse init [?e1, ?e2] of
          Inl e \<Rightarrow> False
        | Inr s \<Rightarrow> card (finished_query_ids s) = 2
            \<and> first_end_time s = Some (2024, 2, 1, 10, 0, 0)
            \<and> last_end_time s = Some (2024, 2, 1, 10, 0, 4)"
    by code_simp
  then obtain s where s: "parse init [?e1, ?e2] = Inr s" "card (finished_query_ids s) = 2"
    "first_end_time s = Some (2024, 2, 1, 10, 0, 0)" "last_end_time s = Some (2024, 2, 1, 10, 0, 4)"
    by (cases "parse init [?e1, ?e2]") auto
  have "case parse init [?e1] of
          Inl e \<Rightarrow> False
        | Inr u \<Rightarrow> card (finished_query_ids u) = 1 \<and> first_end_time u \<noteq> None"
    by code_simp
  then obtain u where u: "parse init [?e1] = Inr u" "card (finished_query_ids u) = 1"
    "first_end_time u \<noteq> None"
    by (cases "parse init [?e1]") auto
  have span: "total_seconds (2024, 2, 1, 10, 0, 4) (2024, 2, 1, 10, 0, 0) = 4"
    by (simp add: total_seconds_def)
  have q: "fdiv (float_of_int 2) (float_of_int 4) = Fin 4503599627370496 (- 53)"
    "float_of_int 1 = Fin 4503599627370496 (- 52)"
    by code_simp+
  from rps_cases[of s "(2024, 2, 1, 10, 0, 0)" "(2024, 2, 1, 10, 0, 4)"] s span q
  have "rps s = Fin 4503599627370496 (- 53)" by simp
  moreover from rps_cases[of u _ _ _ "[?e1]"] u q
  have "rps u = Fin 4503599627370496 (- 52)" by simp
  moreover from rps_cases[of init] have "rps init = fzero" by (simp add: init_def)
  ultimately show ?thesis using s(1) u(1) by blast
qed

text \<open>
  C7: \<open>average_words\<close> is the word total divided by the number of distinct started query
  ids, and \<open>0.0\<close> when there is none; \<open>average_times\<close> is the pair of the working and the
  total milliseconds, each divided by the number of finished queries, and \<open>(0.0, 0.0)\<close>
  when there is none; on an empty input both are at these defaults.
\<close>

theorem average_words_times:
  "average_words s =
     (if card (new_query_ids s) = 0 then fzero
      else int_truediv (total_words s) (int (card (new_query_ids s))))
   \<and> average_times s =
     (if card (finished_query_ids s) = 0 then (fzero, fzero)
      else (fdiv (total_time_working_ms s) (float_of_int (int (card (finished_query_ids s)))),
            fdiv (total_time_with_waiting_ms s) (float_of_int (int (card (finished_query_ids s))))))
   \<and> parse init [] = Inr init \<and> average_words init = fzero \<and> average_times init = (fzero, fzero)"
  by (simp add: average_words_def average_times_def Let_def init_def)

theorem average_words_times_witness:
  "\<exists>s. parse init
          [''On Conn{a1} new Query{b2} [7]: select one'',
           ''On Conn{a1} new Query{b3} [8]: ping'',
           ''End Query{b2} [7], ok, spent { 10.0 : 2.5 queue, 7.5 work } ms, 5 bytes'',
           ''End Query{b3} [8], ok, spent { 30.0 : 12.5 queue, 17.5 work } ms, 5 bytes'']
        = Inr s
      \<and> average_words s = Fin 6755399441055744 (- 52)
      \<and> average_times s = (Fin 7036874417766400 (- 49), Fin 5629499534213120 (- 48))"
proof -
  let ?lines =
    "[''On Conn{a1} new Query{b2} [7]: select one'',
      ''On Conn{a1} new Query{b3} [8]: ping'',
      ''End Query{b2} [7], ok, spent { 10.0 : 2.5 queue, 7.5 work } ms, 5 bytes'',
      ''End Query{b3} [8], ok, spent { 30.0 : 12.5 queue, 17.5 work } ms, 5 bytes'']"
  have "case parse init ?lines of
          Inl e \<Rightarrow> False
        | Inr s \<Rightarrow> total_words s = 3 \<and> card (new_query_ids s) = 2
            \<and> card (finished_query_ids s) = 2
            \<and> total_time_working_ms s = Fin 7036874417766400 (- 48)
            \<and> total_time_with_waiting_ms s = Fin 5629499534213120 (- 47)"
    by code_simp
  then obtain s where s: "parse init ?lines = Inr s" "total_words s = 3"
    "card (new_query_ids s) = 2" "card (finished_query_ids s) = 2"
    "total_time_working_ms s = Fin 7036874417766400 (- 48)"
    "total_time_with_waiting_ms s = Fin 5629499534213120 (- 47)"
    by (cases "parse init ?lines") auto
  have q: "int_truediv 3 2 = Fin 6755399441055744 (- 52)"
    "fdiv (Fin 7036874417766400 (- 48)) (float_of_int 2) = Fin 7036874417766400 (- 49)"
    "fdiv (Fin 5629499534213120 (- 47)) (float_of_int 2) = Fin 5629499534213120 (- 48)"
    by code_simp+
  from average_words_times[of s] s q
  have "average_words s = Fin 6755399441055744 (- 52)
      \<and> average_times s = (Fin 7036874417766400 (- 49), Fin 5629499534213120 (- 48))"
    by simp
  with s(1) show ?thesis by blast
qed

end
